theory Spec2Isabelle
  imports Main "HOL-Library.AList"
begin

section \<open>JavaScript strings and plain data values\<close>

text \<open>
  A JavaScript string is a sequence of UTF-16 code units. It is modelled as the list of
  its code unit values; \<open>js\<close> turns an ASCII literal into that list. Literals of the
  source that contain characters outside ASCII are written as their code units.
\<close>

type_synonym jsstring = "nat list"

definition js :: "string \<Rightarrow> jsstring" where
  "js s = map of_char s"

text \<open>
  Plain data as \<open>JSON.parse\<close> produces it and as the code passes it around under the
  type \<open>any\<close>. Numbers are modelled as integers (every number the code itself computes
  is an integer count of retries, characters or milliseconds). An object is the list of its
  own properties in creation order. \<open>undefined\<close> is not a member of the type: a value that
  may be \<open>undefined\<close> has type \<open>json option\<close> with \<open>None\<close> for \<open>undefined\<close>.
\<close>

datatype json =
    JNull
  | JBool bool
  | JNum int
  | JStr jsstring
  | JArr "json list"
  | JObj "(jsstring \<times> json) list"

text \<open>
  The exceptions that the modelled code can meet: the \<open>TypeError\<close> of a conversion that
  fails and the \<open>QuotaExceededError\<close> of a write that \<open>localStorage\<close> refuses. A call
  that may throw returns \<open>Inl\<close> of the exception or \<open>Inr\<close> of its value.
\<close>

datatype exception = TypeError | QuotaExceededError

section \<open>JavaScript coercions on plain data\<close>

text \<open>
  \<open>ToBoolean\<close>: \<open>undefined\<close>, \<open>null\<close>, \<open>false\<close>, \<open>0\<close> and the empty string are falsy,
  every other value (every array and object too) is truthy.
\<close>

fun truthy :: "json option \<Rightarrow> bool" where
  "truthy None = False"
| "truthy (Some JNull) = False"
| "truthy (Some (JBool b)) = b"
| "truthy (Some (JNum n)) = (n \<noteq> 0)"
| "truthy (Some (JStr s)) = (s \<noteq> [])"
| "truthy (Some (JArr xs)) = True"
| "truthy (Some (JObj kvs)) = True"

text \<open>
  Property access \<open>v.k\<close> for the fixed property names the code uses (none of them is an
  array index or a property of a prototype other than \<open>length\<close>). In an object the last
  binding of a name counts, as when \<open>JSON.parse\<close> meets a duplicate key. Strings and arrays
  have \<open>length\<close>. On \<open>null\<close> a plain access throws and an optional chain \<open>v?.k\<close> gives
  \<open>undefined\<close>: \<open>get_prop\<close> gives \<open>None\<close> there, and each plain access of the code on a
  value that can be \<open>null\<close> is guarded in the model where the source would throw.
\<close>

fun get_prop :: "json \<Rightarrow> jsstring \<Rightarrow> json option" where
  "get_prop (JObj kvs) k = map_of (rev kvs) k"
| "get_prop (JStr s) k = (if k = js ''length'' then Some (JNum (int (length s))) else None)"
| "get_prop (JArr xs) k = (if k = js ''length'' then Some (JNum (int (length xs))) else None)"
| "get_prop v k = None"

text \<open>The \<open>in\<close> operator on an object or array, for the same fixed names.\<close>

fun has_prop :: "json \<Rightarrow> jsstring \<Rightarrow> bool" where
  "has_prop (JObj kvs) k = (k \<in> set (map fst kvs))"
| "has_prop (JArr xs) k = (k = js ''length'')"
| "has_prop v k = False"

text \<open>
  The string of a value, as \<open>ToString\<close> gives it when the conversion completes. A number
  prints in decimal (as JavaScript prints every integer below \<open>10^21\<close> in absolute
  value); an array prints its elements joined by commas, with \<open>null\<close> elements empty; a
  plain object prints as \<open>[object Object]\<close>.
\<close>

function show_nat :: "nat \<Rightarrow> jsstring" where
  "show_nat n = (if n < 10 then [48 + n] else show_nat (n div 10) @ [48 + n mod 10])"
  by pat_completeness auto
termination
  by (relation "measure id") auto

declare show_nat.simps [simp del]

definition show_int :: "int \<Rightarrow> jsstring" where
  "show_int i = (if i < 0 then 45 # show_nat (nat (- i)) else show_nat (nat i))"

fun join :: "jsstring \<Rightarrow> jsstring list \<Rightarrow> jsstring" where
  "join sep [] = []"
| "join sep [x] = x"
| "join sep (x # y # ys) = x @ sep @ join sep (y # ys)"

fun to_string :: "json \<Rightarrow> jsstring" where
  "to_string JNull = js ''null''"
| "to_string (JBool b) = (if b then js ''true'' else js ''false'')"
| "to_string (JNum n) = show_int n"
| "to_string (JStr s) = s"
| "to_string (JArr xs) = join (js '','') (map (\<lambda>x. if x = JNull then [] else to_string x) xs)"
| "to_string (JObj kvs) = js ''[object Object]''"

text \<open>
  The conversion of an object to a primitive value calls its \<open>toString\<close> method (and
  \<open>valueOf\<close>, which for plain data returns the object itself); that of an array calls the
  conversion of every element other than \<open>null\<close>. An own property \<open>toString\<close> of a
  plain object hides the method of the prototype and is not callable, since it holds plain
  data, so that no method is left to give a primitive value and the conversion throws a
  \<open>TypeError\<close>. \<open>conversion_throws\<close> tells when that happens, and \<open>ToString\<close> is the
  conversion with both outcomes.
\<close>

fun conversion_throws :: "json \<Rightarrow> bool" where
  "conversion_throws (JObj kvs) = has_prop (JObj kvs) (js ''toString'')"
| "conversion_throws (JArr xs) = list_ex conversion_throws xs"
| "conversion_throws v = False"

definition ToString :: "json \<Rightarrow> exception + jsstring" where
  "ToString v = (if conversion_throws v then Inl TypeError else Inr (to_string v))"

section \<open>Numeric coercion and comparison\<close>

text \<open>The decimal digits.\<close>

definition is_digit :: "nat \<Rightarrow> bool" where
  "is_digit c = (48 \<le> c \<and> c \<le> 57)"

text \<open>
  \<open>ToNumber\<close>, with \<open>None\<close> for \<open>NaN\<close>. A string is trimmed of white space; the empty
  string is 0 and an optionally signed run of decimal digits is its value. Numeric strings
  with a fraction, an exponent, a radix prefix or \<open>Infinity\<close> denote values outside the
  integer model and read as \<open>NaN\<close> here; the code never produces such a string where a
  number is expected. Arrays and plain objects are first converted to their string; the
  functions of the cache, which catch the exception of a conversion, test
  \<open>conversion_throws\<close> before they convert.
\<close>

definition js_whitespace :: "nat \<Rightarrow> bool" where
  "js_whitespace c = (c \<in> {0x09, 0x0A, 0x0B, 0x0C, 0x0D, 0x20, 0xA0, 0x1680, 0x2028, 0x2029,
      0x202F, 0x205F, 0x3000, 0xFEFF} \<or> (0x2000 \<le> c \<and> c \<le> 0x200A))"

definition trim :: "jsstring \<Rightarrow> jsstring" where
  "trim s = rev (dropWhile js_whitespace (rev (dropWhile js_whitespace s)))"

definition digits_value :: "jsstring \<Rightarrow> nat" where
  "digits_value ds = foldl (\<lambda>a c. 10 * a + (c - 48)) 0 ds"

definition unsigned_number :: "jsstring \<Rightarrow> int option" where
  "unsigned_number ds =
     (if ds \<noteq> [] \<and> list_all is_digit ds then Some (int (digits_value ds)) else None)"

definition string_to_number :: "jsstring \<Rightarrow> int option" where
  "string_to_number s =
     (case trim s of
        [] \<Rightarrow> Some 0
      | c # cs \<Rightarrow>
          if c = 43 then unsigned_number cs
          else if c = 45 then map_option uminus (unsigned_number cs)
          else unsigned_number (c # cs))"

fun to_number :: "json option \<Rightarrow> int option" where
  "to_number None = None"
| "to_number (Some JNull) = Some 0"
| "to_number (Some (JBool b)) = Some (if b then 1 else 0)"
| "to_number (Some (JNum n)) = Some n"
| "to_number (Some v) = string_to_number (to_string v)"

text \<open>
  The relational operator \<open>a < b\<close>: when both operands become strings (strings, arrays
  and plain objects do) they are compared as strings, code unit by code unit; otherwise
  both are converted to numbers and a \<open>NaN\<close> makes the comparison false.
\<close>

fun str_lt :: "jsstring \<Rightarrow> jsstring \<Rightarrow> bool" where
  "str_lt [] [] = False"
| "str_lt [] (y # ys) = True"
| "str_lt (x # xs) [] = False"
| "str_lt (x # xs) (y # ys) = (x < y \<or> (x = y \<and> str_lt xs ys))"

fun stringy :: "json option \<Rightarrow> bool" where
  "stringy (Some (JStr s)) = True"
| "stringy (Some (JArr xs)) = True"
| "stringy (Some (JObj kvs)) = True"
| "stringy v = False"

definition js_lt :: "json option \<Rightarrow> json option \<Rightarrow> bool" where
  "js_lt a b =
     (case (a, b) of
        (Some x, Some y) \<Rightarrow>
          if stringy a \<and> stringy b then str_lt (to_string x) (to_string y)
          else (case (to_number a, to_number b) of
                  (Some m, Some n) \<Rightarrow> m < n
                | _ \<Rightarrow> False)
      | _ \<Rightarrow> False)"

section \<open>JSON text\<close>

text \<open>
  \<open>JSON.parse\<close> and \<open>JSON.stringify\<close> on plain data. The parser is a lexer (a state
  machine over the code units) followed by a pushdown automaton over the tokens; both read
  their input once, from left to right. Numbers are integer literals: a fraction or an
  exponent denotes a value outside the integer model and is not accepted.
\<close>

datatype tok =
  TLBrace | TRBrace | TLBrack | TRBrack | TColon | TComma
  | TStr jsstring | TNum int | TTrue | TFalse | TNull

datatype lstate =
    Idle
  | InStr jsstring
  | InEsc jsstring
  | InUni jsstring "nat list"
  | InNum bool jsstring
  | InKw jsstring tok

definition json_ws :: "nat \<Rightarrow> bool" where
  "json_ws c = (c = 0x20 \<or> c = 0x09 \<or> c = 0x0A \<or> c = 0x0D)"

text \<open>A character met between two tokens: the tokens it completes and the state it opens.\<close>

definition idle_step :: "nat \<Rightarrow> (tok list \<times> lstate) option" where
  "idle_step c =
     (if json_ws c then Some ([], Idle)
      else if c = 0x7B then Some ([TLBrace], Idle)
      else if c = 0x7D then Some ([TRBrace], Idle)
      else if c = 0x5B then Some ([TLBrack], Idle)
      else if c = 0x5D then Some ([TRBrack], Idle)
      else if c = 0x3A then Some ([TColon], Idle)
      else if c = 0x2C then Some ([TComma], Idle)
      else if c = 0x22 then Some ([], InStr [])
      else if c = 0x2D then Some ([], InNum True [])
      else if is_digit c then Some ([], InNum False [c])
      else if c = 0x74 then Some ([], InKw (js ''rue'') TTrue)
      else if c = 0x66 then Some ([], InKw (js ''alse'') TFalse)
      else if c = 0x6E then Some ([], InKw (js ''ull'') TNull)
      else None)"

text \<open>An integer literal: at least one digit, and no leading zero before another digit.\<close>

definition number_tok :: "bool \<Rightarrow> jsstring \<Rightarrow> tok option" where
  "number_tok neg ds =
     (if ds = [] \<or> (hd ds = 48 \<and> length ds \<noteq> 1) then None
      else Some (TNum (if neg then - int (digits_value ds) else int (digits_value ds))))"

definition unescape :: "nat \<Rightarrow> nat option" where
  "unescape c =
     (if c = 0x22 then Some 0x22
      else if c = 0x5C then Some 0x5C
      else if c = 0x2F then Some 0x2F
      else if c = 0x62 then Some 0x08
      else if c = 0x66 then Some 0x0C
      else if c = 0x6E then Some 0x0A
      else if c = 0x72 then Some 0x0D
      else if c = 0x74 then Some 0x09
      else None)"

definition hex_value :: "nat \<Rightarrow> nat option" where
  "hex_value c =
     (if is_digit c then Some (c - 48)
      else if 97 \<le> c \<and> c \<le> 102 then Some (c - 87)
      else if 65 \<le> c \<and> c \<le> 70 then Some (c - 55)
      else None)"

fun lex_step :: "lstate \<Rightarrow> nat \<Rightarrow> (tok list \<times> lstate) option" where
  "lex_step Idle c = idle_step c"
| "lex_step (InStr acc) c =
     (if c = 0x22 then Some ([TStr acc], Idle)
      else if c = 0x5C then Some ([], InEsc acc)
      else if c < 0x20 then None
      else Some ([], InStr (acc @ [c])))"
| "lex_step (InEsc acc) c =
     (case unescape c of
        Some d \<Rightarrow> Some ([], InStr (acc @ [d]))
      | None \<Rightarrow> if c = 0x75 then Some ([], InUni acc []) else None)"
| "lex_step (InUni acc hs) c =
     (case hex_value c of
        None \<Rightarrow> None
      | Some h \<Rightarrow>
          if length hs = 3
          then Some ([], InStr (acc @ [foldl (\<lambda>a d. 16 * a + d) 0 (hs @ [h])]))
          else Some ([], InUni acc (hs @ [h])))"
| "lex_step (InNum neg ds) c =
     (if is_digit c then Some ([], InNum neg (ds @ [c]))
      else (case number_tok neg ds of
              None \<Rightarrow> None
            | Some t \<Rightarrow>
                (case idle_step c of
                   None \<Rightarrow> None
                 | Some (ts, st) \<Rightarrow> Some (t # ts, st))))"
| "lex_step (InKw ks t) c =
     (case ks of
        [] \<Rightarrow> None
      | k # ks' \<Rightarrow>
          if c \<noteq> k then None
          else if ks' = [] then Some ([t], Idle)
          else Some ([], InKw ks' t))"

fun lex_end :: "lstate \<Rightarrow> tok list option" where
  "lex_end Idle = Some []"
| "lex_end (InNum neg ds) = map_option (\<lambda>t. [t]) (number_tok neg ds)"
| "lex_end st = None"

text \<open>The tokens of a step go in front of the tokens of the rest, if the rest has any.\<close>

definition emit :: "tok list \<Rightarrow> tok list option \<Rightarrow> tok list option" where
  "emit ts r = map_option ((@) ts) r"

fun lex :: "lstate \<Rightarrow> jsstring \<Rightarrow> tok list option" where
  "lex st [] = lex_end st"
| "lex st (c # cs) =
     (case lex_step st c of
        None \<Rightarrow> None
      | Some (ts, st') \<Rightarrow> emit ts (lex st' cs))"

text \<open>
  The pushdown automaton. A frame is an array or an object under construction; \<open>FKey\<close>
  is an object whose next member has its key and waits for its value.
\<close>

datatype frame =
    FArr "json list"
  | FObj "(jsstring \<times> json) list"
  | FKey "(jsstring \<times> json) list" jsstring

datatype pmode = Value | FirstValue | AfterValue | Key | FirstKey | Colon | Done json

text \<open>A value is complete: it is the result, or it joins the container on top of the stack.\<close>

fun push :: "json \<Rightarrow> frame list \<Rightarrow> (pmode \<times> frame list) option" where
  "push v [] = Some (Done v, [])"
| "push v (FArr xs # st) = Some (AfterValue, FArr (xs @ [v]) # st)"
| "push v (FKey ms k # st) = Some (AfterValue, FObj (ms @ [(k, v)]) # st)"
| "push v (FObj ms # st) = None"

fun value_step :: "tok \<Rightarrow> frame list \<Rightarrow> (pmode \<times> frame list) option" where
  "value_step (TStr s) st = push (JStr s) st"
| "value_step (TNum n) st = push (JNum n) st"
| "value_step TTrue st = push (JBool True) st"
| "value_step TFalse st = push (JBool False) st"
| "value_step TNull st = push JNull st"
| "value_step TLBrack st = Some (FirstValue, FArr [] # st)"
| "value_step TLBrace st = Some (FirstKey, FObj [] # st)"
| "value_step t st = None"

fun key_step :: "tok \<Rightarrow> frame list \<Rightarrow> (pmode \<times> frame list) option" where
  "key_step (TStr k) (FObj ms # st) = Some (Colon, FKey ms k # st)"
| "key_step t st = None"

fun pstep :: "pmode \<Rightarrow> frame list \<Rightarrow> tok \<Rightarrow> (pmode \<times> frame list) option" where
  "pstep Value st t = value_step t st"
| "pstep FirstValue st t =
     (if t = TRBrack
      then (case st of FArr [] # st' \<Rightarrow> push (JArr []) st' | _ \<Rightarrow> None)
      else value_step t st)"
| "pstep AfterValue st t =
     (case st of
        FArr xs # st' \<Rightarrow>
          (case t of
             TComma \<Rightarrow> Some (Value, st)
           | TRBrack \<Rightarrow> push (JArr xs) st'
           | _ \<Rightarrow> None)
      | FObj ms # st' \<Rightarrow>
          (case t of
             TComma \<Rightarrow> Some (Key, st)
           | TRBrace \<Rightarrow> push (JObj ms) st'
           | _ \<Rightarrow> None)
      | _ \<Rightarrow> None)"
| "pstep Key st t = key_step t st"
| "pstep FirstKey st t =
     (if t = TRBrace
      then (case st of FObj [] # st' \<Rightarrow> push (JObj []) st' | _ \<Rightarrow> None)
      else key_step t st)"
| "pstep Colon st t = (if t = TColon then Some (Value, st) else None)"
| "pstep (Done v) st t = None"

fun prun :: "pmode \<Rightarrow> frame list \<Rightarrow> tok list \<Rightarrow> json option" where
  "prun m st [] = (case m of Done v \<Rightarrow> Some v | _ \<Rightarrow> None)"
| "prun m st (t # ts) =
     (case pstep m st t of
        None \<Rightarrow> None
      | Some (m', st') \<Rightarrow> prun m' st' ts)"

text \<open>\<open>JSON.parse(text)\<close>: \<open>None\<close> is the \<open>SyntaxError\<close> it throws.\<close>

definition JSON_parse :: "jsstring \<Rightarrow> json option" where
  "JSON_parse s = (case lex Idle s of None \<Rightarrow> None | Some ts \<Rightarrow> prun Value [] ts)"

text \<open>
  \<open>QuoteJSONString\<close>: the short escapes, \<open>\uXXXX\<close> (lower-case digits) for the other
  control characters and for a surrogate that is not part of a pair, everything else as it
  is.
\<close>

definition hex_digit :: "nat \<Rightarrow> nat" where
  "hex_digit n = (if n < 10 then 48 + n else 87 + n)"

definition uescape :: "nat \<Rightarrow> jsstring" where
  "uescape c = [0x5C, 0x75, hex_digit (c div 4096 mod 16), hex_digit (c div 256 mod 16),
     hex_digit (c div 16 mod 16), hex_digit (c mod 16)]"

definition is_high :: "nat \<Rightarrow> bool" where
  "is_high c = (0xD800 \<le> c \<and> c \<le> 0xDBFF)"

definition is_low :: "nat \<Rightarrow> bool" where
  "is_low c = (0xDC00 \<le> c \<and> c \<le> 0xDFFF)"

definition escape_unit :: "nat \<Rightarrow> jsstring" where
  "escape_unit c =
     (if c = 0x08 then [0x5C, 0x62]
      else if c = 0x09 then [0x5C, 0x74]
      else if c = 0x0A then [0x5C, 0x6E]
      else if c = 0x0C then [0x5C, 0x66]
      else if c = 0x0D then [0x5C, 0x72]
      else if c = 0x22 then [0x5C, 0x22]
      else if c = 0x5C then [0x5C, 0x5C]
      else if c < 0x20 \<or> is_high c \<or> is_low c then uescape c
      else [c])"

fun quote_body :: "jsstring \<Rightarrow> jsstring" where
  "quote_body [] = []"
| "quote_body [c] = escape_unit c"
| "quote_body (c # d # ds) =
     (if is_high c \<and> is_low d then c # d # quote_body ds
      else escape_unit c @ quote_body (d # ds))"

definition quote :: "jsstring \<Rightarrow> jsstring" where
  "quote s = 0x22 # quote_body s @ [0x22]"

text \<open>
  \<open>SerializeJSONProperty\<close> with the gap \<open>gap\<close> at the indentation \<open>ind\<close>; the
  empty gap gives the compact form.
\<close>

definition wrap :: "nat \<Rightarrow> nat \<Rightarrow> jsstring \<Rightarrow> jsstring \<Rightarrow> jsstring list \<Rightarrow> jsstring" where
  "wrap opn cls gap ind parts =
     (if parts = [] then [opn, cls]
      else if gap = [] then opn # join (js '','') parts @ [cls]
      else opn # 0x0A # (ind @ gap) @ join (0x2C # 0x0A # (ind @ gap)) parts
             @ 0x0A # ind @ [cls])"

fun ser :: "jsstring \<Rightarrow> jsstring \<Rightarrow> json \<Rightarrow> jsstring" where
  "ser gap ind JNull = js ''null''"
| "ser gap ind (JBool b) = (if b then js ''true'' else js ''false'')"
| "ser gap ind (JNum n) = show_int n"
| "ser gap ind (JStr s) = quote s"
| "ser gap ind (JArr xs) = wrap 0x5B 0x5D gap ind (map (ser gap (ind @ gap)) xs)"
| "ser gap ind (JObj kvs) =
     wrap 0x7B 0x7D gap ind
       (map (\<lambda>kv. quote (fst kv) @ (if gap = [] then [0x3A] else [0x3A, 0x20])
                     @ ser gap (ind @ gap) (snd kv)) kvs)"

text \<open>\<open>JSON.stringify(value, null, space)\<close>, the gap being \<open>space\<close> blanks.\<close>

definition JSON_stringify :: "json \<Rightarrow> nat \<Rightarrow> jsstring" where
  "JSON_stringify v space = ser (replicate (min space 10) 0x20) [] v"

section \<open>errorHandler.ts: retry policy\<close>

datatype ErrorType = Network | Api | Auth | Config | Timeout | Cors | Unknown

datatype Severity = Low | Medium | High | Critical

text \<open>
  \<open>interface ErrorInfo\<close>. The field \<open>details\<close> is declared \<open>string\<close> but receives
  whatever \<open>extractErrorMessage\<close> returned, so it holds a plain data value;
  \<open>shouldEnableOfflineMode\<close> is optional.
\<close>

record ErrorInfo =
  type :: ErrorType
  severity :: Severity
  message :: jsstring
  details :: json
  suggestions :: "jsstring list"
  canRetry :: bool
  shouldEnableOfflineMode :: "bool option"

text \<open>
  \<open>shouldRetry(errorInfo, retryCount, maxRetries = 3)\<close>: the default parameter is the
  \<open>None\<close> case of the third argument.
\<close>

definition noRetryTypes :: "ErrorType list" where
  "noRetryTypes = [Auth, Config]"

definition shouldRetry :: "ErrorInfo \<Rightarrow> int \<Rightarrow> int option \<Rightarrow> bool" where
  "shouldRetry errorInfo retryCount maxRetries =
     (let maxRetries = (case maxRetries of None \<Rightarrow> 3 | Some m \<Rightarrow> m) in
      if \<not> canRetry errorInfo \<or> retryCount \<ge> maxRetries then False
      else if type errorInfo \<in> set noRetryTypes then False
      else True)"

text \<open>
  The numbers of the retry delay are IEEE doubles. The model has those whose value is an
  integer, the two infinities and \<open>NaN\<close>; the two zeros are one value. \<open>Num i\<close> stands
  for a JavaScript number when the integer \<open>i\<close> is a double: when it is below \<open>2^1024\<close>
  in magnitude and has at most 53 significant bits (\<open>bit_length n\<close> is the number of
  binary digits of \<open>n\<close>).
\<close>

datatype number = Num int | Infinity | MinusInfinity | NaN

function bit_length :: "nat \<Rightarrow> nat" where
  "bit_length n = (if n = 0 then 0 else Suc (bit_length (n div 2)))"
  by pat_completeness auto
termination
  by (relation "measure id") auto

declare bit_length.simps [simp del]

definition is_double :: "int \<Rightarrow> bool" where
  "is_double i = (\<bar>i\<bar> < 2 ^ 1024 \<and> 2 ^ (bit_length (nat \<bar>i\<bar>) - 53) dvd \<bar>i\<bar>)"

text \<open>
  The result of an arithmetic operation is the double nearest to the exact result, the
  one with the even significand when two are equally near, and an infinity when that
  rounding reaches \<open>2^1024\<close>.
\<close>

definition round_nat :: "nat \<Rightarrow> nat" where
  "round_nat x =
     (let k = bit_length x - 53; q = x div 2 ^ k; r = x mod 2 ^ k in
      if 2 * r < 2 ^ k \<or> (2 * r = 2 ^ k \<and> even q) then q * 2 ^ k else (q + 1) * 2 ^ k)"

definition to_double :: "int \<Rightarrow> number" where
  "to_double i =
     (let m = round_nat (nat \<bar>i\<bar>) in
      if m \<ge> 2 ^ 1024 then (if i < 0 then MinusInfinity else Infinity)
      else Num (if i < 0 then - int m else int m))"

text \<open>
  The product \<open>x * y\<close>: \<open>NaN\<close> when an operand is \<open>NaN\<close> or when zero meets an
  infinity, the infinity with the sign of the product when an operand is infinite, and the
  rounded product otherwise.
\<close>

fun sign :: "number \<Rightarrow> int" where
  "sign (Num a) = sgn a"
| "sign Infinity = 1"
| "sign MinusInfinity = - 1"
| "sign NaN = 0"

definition signed_infinity :: "int \<Rightarrow> number" where
  "signed_infinity s = (if s = 0 then NaN else if s < 0 then MinusInfinity else Infinity)"

fun times_number :: "number \<Rightarrow> number \<Rightarrow> number" where
  "times_number (Num a) (Num b) = to_double (a * b)"
| "times_number NaN y = NaN"
| "times_number x NaN = NaN"
| "times_number x y = signed_infinity (sign x * sign y)"

text \<open>
  \<open>Math.pow(base, exponent)\<close> for an integer base and a natural exponent: the power as a
  double. The code calls it with the base 2, whose powers below \<open>2^1024\<close> are doubles.
\<close>

definition Math_pow :: "int \<Rightarrow> nat \<Rightarrow> number" where
  "Math_pow b n = to_double (b ^ n)"

text \<open>\<open>Math.min\<close> of two numbers: \<open>NaN\<close> when one of them is, the smaller one otherwise.\<close>

fun Math_min :: "number \<Rightarrow> number \<Rightarrow> number" where
  "Math_min NaN y = NaN"
| "Math_min x NaN = NaN"
| "Math_min MinusInfinity y = MinusInfinity"
| "Math_min x MinusInfinity = MinusInfinity"
| "Math_min Infinity y = y"
| "Math_min x Infinity = x"
| "Math_min (Num a) (Num b) = Num (if b < a then b else a)"

text \<open>
  \<open>calculateRetryDelay(retryCount, baseDelay = 1000)\<close> is
  \<open>Math.min(baseDelay * Math.pow(2, retryCount), 10000)\<close>. The retry count is a natural
  number; the default parameter is the \<open>None\<close> case of the second argument.
\<close>

definition calculateRetryDelay :: "nat \<Rightarrow> number option \<Rightarrow> number" where
  "calculateRetryDelay retryCount baseDelay =
     (let baseDelay = (case baseDelay of None \<Rightarrow> Num 1000 | Some b \<Rightarrow> b) in
      Math_min (times_number baseDelay (Math_pow 2 retryCount)) (Num 10000))"

section \<open>errorHandler.ts: regular expressions\<close>

text \<open>
  The twelve patterns of \<open>ERROR_PATTERNS\<close> are alternations of sequences of literal
  characters, \<open>\d\<close> and \<open>.*\<close>. A pattern is the list of its alternatives, each a list of
  atoms.
\<close>

datatype atom = Chr nat | Digit | AnyStar

definition lit :: "string \<Rightarrow> atom list" where
  "lit s = map (\<lambda>c. Chr (of_char c)) s"

text \<open>
  \<open>Canonicalize\<close> of a pattern without the \<open>u\<close> flag maps a character to its upper case,
  but never a character from 128 on to one below 128. All pattern characters here are
  ASCII, so a pattern character can only equal the canonical form of an ASCII input
  character; leaving the characters from 128 on unchanged gives the same comparisons.
\<close>

definition canon :: "nat \<Rightarrow> nat" where
  "canon c = (if 97 \<le> c \<and> c \<le> 122 then c - 32 else c)"

definition chr_eq :: "bool \<Rightarrow> nat \<Rightarrow> nat \<Rightarrow> bool" where
  "chr_eq ic p c = (if ic then canon p = canon c else p = c)"

definition line_terminator :: "nat \<Rightarrow> bool" where
  "line_terminator c = (c = 0x0A \<or> c = 0x0D \<or> c = 0x2028 \<or> c = 0x2029)"

text \<open>
  The backtracking matcher at one position: the length of the match it finds first
  (\<open>.*\<close> is greedy: it takes a character before it tries to stop), or \<open>None\<close>.
\<close>

fun match_here :: "bool \<Rightarrow> atom list \<Rightarrow> jsstring \<Rightarrow> nat option" where
  "match_here ic [] s = Some 0"
| "match_here ic (Chr p # as) [] = None"
| "match_here ic (Chr p # as) (c # cs) =
     (if chr_eq ic p c then map_option Suc (match_here ic as cs) else None)"
| "match_here ic (Digit # as) [] = None"
| "match_here ic (Digit # as) (c # cs) =
     (if is_digit c then map_option Suc (match_here ic as cs) else None)"
| "match_here ic (AnyStar # as) [] = match_here ic as []"
| "match_here ic (AnyStar # as) (c # cs) =
     (if line_terminator c then match_here ic as (c # cs)
      else (case match_here ic (AnyStar # as) cs of
              Some n \<Rightarrow> Some (Suc n)
            | None \<Rightarrow> match_here ic as (c # cs)))"

fun match_alts :: "bool \<Rightarrow> atom list list \<Rightarrow> jsstring \<Rightarrow> nat option" where
  "match_alts ic [] s = None"
| "match_alts ic (a # as) s =
     (case match_here ic a s of Some n \<Rightarrow> Some n | None \<Rightarrow> match_alts ic as s)"

text \<open>The leftmost match: its start offset and its length.\<close>

fun search :: "bool \<Rightarrow> atom list list \<Rightarrow> jsstring \<Rightarrow> (nat \<times> nat) option" where
  "search ic alts [] = map_option (Pair 0) (match_alts ic alts [])"
| "search ic alts (c # cs) =
     (case match_alts ic alts (c # cs) of
        Some n \<Rightarrow> Some (0, n)
      | None \<Rightarrow> map_option (\<lambda>(k, n). (Suc k, n)) (search ic alts cs))"

text \<open>
  A \<open>RegExp\<close> object: its pattern, the flags \<open>i\<close> and \<open>g\<close>, and its one mutable
  property \<open>lastIndex\<close>. \<open>RegExp.prototype.test\<close> starts at \<open>lastIndex\<close> and writes it
  only under the \<open>g\<close> flag; without the flag it starts at 0 and leaves the object as it
  is. It returns the answer and the object after the call.
\<close>

record RegExp =
  alternatives :: "atom list list"
  ignoreCase :: bool
  global :: bool
  lastIndex :: nat

definition RegExp_test :: "RegExp \<Rightarrow> jsstring \<Rightarrow> bool \<times> RegExp" where
  "RegExp_test r s =
     (let i = (if global r then lastIndex r else 0) in
      if i > length s then (False, if global r then r\<lparr>lastIndex := 0\<rparr> else r)
      else (case search (ignoreCase r) (alternatives r) (drop i s) of
              None \<Rightarrow> (False, if global r then r\<lparr>lastIndex := 0\<rparr> else r)
            | Some (k, n) \<Rightarrow> (True, if global r then r\<lparr>lastIndex := i + k + n\<rparr> else r)))"

text \<open>A pattern literal \<open>/.../i\<close>.\<close>

definition regexp_i :: "atom list list \<Rightarrow> RegExp" where
  "regexp_i alts = \<lparr> alternatives = alts, ignoreCase = True, global = False, lastIndex = 0 \<rparr>"

record ErrorPatterns =
  NETWORK_FAILED :: RegExp
  NETWORK_TIMEOUT :: RegExp
  NETWORK_OFFLINE :: RegExp
  DNS_FAILED :: RegExp
  CORS_ERROR :: RegExp
  API_UNAUTHORIZED :: RegExp
  API_FORBIDDEN :: RegExp
  API_NOT_FOUND :: RegExp
  API_RATE_LIMIT :: RegExp
  API_SERVER_ERROR :: RegExp
  CONFIG_MISSING :: RegExp
  CONFIG_INVALID :: RegExp

definition ERROR_PATTERNS :: ErrorPatterns where
  "ERROR_PATTERNS = \<lparr>
     NETWORK_FAILED = regexp_i
       [lit ''net::ERR_FAILED'', lit ''Failed to fetch'', lit ''Network request failed''],
     NETWORK_TIMEOUT = regexp_i
       [lit ''timeout'', lit ''ETIMEDOUT'', lit ''Request timed out''],
     NETWORK_OFFLINE = regexp_i
       [lit ''net::ERR_INTERNET_DISCONNECTED'', lit ''offline''],
     DNS_FAILED = regexp_i
       [lit ''net::ERR_NAME_NOT_RESOLVED'', lit ''DNS''],
     CORS_ERROR = regexp_i
       [lit ''CORS'', lit ''Cross-Origin'', lit ''Access-Control''],
     API_UNAUTHORIZED = regexp_i
       [lit ''401'', lit ''Unauthorized'', lit ''Invalid token''],
     API_FORBIDDEN = regexp_i
       [lit ''403'', lit ''Forbidden'', lit ''Access denied''],
     API_NOT_FOUND = regexp_i
       [lit ''404'', lit ''Not found'', lit ''Worker not found''],
     API_RATE_LIMIT = regexp_i
       [lit ''429'', lit ''Too many requests'', lit ''Rate limit''],
     API_SERVER_ERROR = regexp_i
       [lit ''5'' @ [Digit, Digit], lit ''Internal server error'', lit ''Service unavailable''],
     CONFIG_MISSING = regexp_i
       [lit ''API token'', lit ''Account ID'', lit ''Worker ID'' @ [AnyStar] @ lit ''required'',
        lit ''not configured''],
     CONFIG_INVALID = regexp_i
       [lit ''Invalid'' @ [AnyStar] @ lit ''format'', lit ''Malformed''] \<rparr>"

section \<open>errorHandler.ts: analyzeError\<close>

text \<open>
  \<open>extractErrorMessage(error: any)\<close>. The argument is a plain data value or
  \<open>undefined\<close>; the optional chains give \<open>undefined\<close> on \<open>null\<close> and \<open>undefined\<close>.
  The last literal is the text for "unknown error".
\<close>

definition extractErrorMessage :: "json option \<Rightarrow> json" where
  "extractErrorMessage error =
     (case error of
        Some (JStr s) \<Rightarrow> JStr s
      | _ \<Rightarrow>
        (let prop = (\<lambda>k. case error of None \<Rightarrow> None | Some v \<Rightarrow> get_prop v k) in
         case (if truthy (prop (js ''message'')) then prop (js ''message'')
               else if truthy (prop (js ''error'')) then prop (js ''error'')
               else if truthy (prop (js ''statusText'')) then prop (js ''statusText'')
               else None) of
           Some v \<Rightarrow> v
         | None \<Rightarrow> JStr [0x672A, 0x77E5, 0x9519, 0x8BEF]))"

definition createNetworkFailedError :: "json \<Rightarrow> ErrorInfo" where \<comment> \<open>message: network connection failed\<close>
  "createNetworkFailedError msg =
     \<lparr> type = Network, severity = High,
       message = [0x7F51, 0x7EDC, 0x8FDE, 0x63A5, 0x5931, 0x8D25],
       details = msg,
       suggestions = [
         [0x68C0, 0x67E5, 0x7F51, 0x7EDC, 0x8FDE, 0x63A5, 0x662F, 0x5426, 0x6B63, 0x5E38],
         [0x786E, 0x8BA4, 0x9632, 0x706B, 0x5899, 0x6216, 0x4EE3, 0x7406, 0x8BBE, 0x7F6E],
         [0x5C1D, 0x8BD5, 0x5207, 0x6362, 0x5230, 0x79BB, 0x7EBF, 0x6A21, 0x5F0F, 0x7EE7, 0x7EED, 0x5DE5, 0x4F5C],
         [0x68C0, 0x67E5] @ js ''Cloudflare API'' @ [0x670D, 0x52A1, 0x72B6, 0x6001],
         [0x8FD0, 0x884C, 0x7F51, 0x7EDC, 0x8BCA, 0x65AD, 0x83B7, 0x53D6, 0x8BE6, 0x7EC6, 0x4FE1, 0x606F]
       ],
       canRetry = True, shouldEnableOfflineMode = Some True \<rparr>"

definition createTimeoutError :: "json \<Rightarrow> ErrorInfo" where \<comment> \<open>message: request timed out\<close>
  "createTimeoutError msg =
     \<lparr> type = Timeout, severity = Medium,
       message = [0x8BF7, 0x6C42, 0x8D85, 0x65F6],
       details = msg,
       suggestions = [
         [0x68C0, 0x67E5, 0x7F51, 0x7EDC, 0x8FDE, 0x63A5, 0x901F, 0x5EA6],
         [0x7A0D, 0x540E, 0x91CD, 0x8BD5],
         [0x8003, 0x8651, 0x4F7F, 0x7528, 0x79BB, 0x7EBF, 0x6A21, 0x5F0F],
         [0x68C0, 0x67E5, 0x662F, 0x5426, 0x6709, 0x7F51, 0x7EDC, 0x4EE3, 0x7406, 0x5F71, 0x54CD, 0x901F, 0x5EA6]
       ],
       canRetry = True, shouldEnableOfflineMode = Some True \<rparr>"

definition createOfflineError :: "json \<Rightarrow> ErrorInfo" where \<comment> \<open>message: the device is offline\<close>
  "createOfflineError msg =
     \<lparr> type = Network, severity = High,
       message = [0x8BBE, 0x5907, 0x5904, 0x4E8E, 0x79BB, 0x7EBF, 0x72B6, 0x6001],
       details = msg,
       suggestions = [
         [0x68C0, 0x67E5, 0x7F51, 0x7EDC, 0x8FDE, 0x63A5],
         [0x542F, 0x7528, 0x79BB, 0x7EBF, 0x6A21, 0x5F0F, 0x7EE7, 0x7EED, 0x5DE5, 0x4F5C],
         [0x8FDE, 0x63A5, 0x7F51, 0x7EDC, 0x540E, 0x91CD, 0x65B0, 0x540C, 0x6B65, 0x6570, 0x636E]
       ],
       canRetry = False, shouldEnableOfflineMode = Some True \<rparr>"

definition createDnsError :: "json \<Rightarrow> ErrorInfo" where \<comment> \<open>message: DNS resolution failed\<close>
  "createDnsError msg =
     \<lparr> type = Network, severity = High,
       message = js ''DNS'' @ [0x89E3, 0x6790, 0x5931, 0x8D25],
       details = msg,
       suggestions = [
         [0x68C0, 0x67E5] @ js ''DNS'' @ [0x8BBE, 0x7F6E],
         [0x5C1D, 0x8BD5, 0x4F7F, 0x7528, 0x5176, 0x4ED6] @ js ''DNS'' @ [0x670D, 0x52A1, 0x5668, 0xFF08, 0x5982] @ js ''8.8.8.8'' @ [0xFF09],
         [0x68C0, 0x67E5, 0x7F51, 0x7EDC, 0x8FDE, 0x63A5],
         [0x8054, 0x7CFB, 0x7F51, 0x7EDC, 0x7BA1, 0x7406, 0x5458]
       ],
       canRetry = True, shouldEnableOfflineMode = None \<rparr>"

definition createCorsError :: "json \<Rightarrow> ErrorInfo" where \<comment> \<open>message: cross-origin request blocked\<close>
  "createCorsError msg =
     \<lparr> type = Cors, severity = Medium,
       message = [0x8DE8, 0x57DF, 0x8BF7, 0x6C42, 0x88AB, 0x963B, 0x6B62],
       details = msg,
       suggestions = [
         [0x8FD9, 0x901A, 0x5E38, 0x662F, 0x6D4F, 0x89C8, 0x5668, 0x5B89, 0x5168, 0x7B56, 0x7565, 0x5BFC, 0x81F4, 0x7684],
         [0x5C1D, 0x8BD5, 0x4F7F, 0x7528] @ js ''HTTPS'' @ [0x8BBF, 0x95EE],
         [0x68C0, 0x67E5] @ js ''Cloudflare Worker'' @ [0x7684] @ js ''CORS'' @ [0x8BBE, 0x7F6E],
         [0x8003, 0x8651, 0x4F7F, 0x7528, 0x6D4F, 0x89C8, 0x5668, 0x6269, 0x5C55, 0x6216, 0x4EE3, 0x7406]
       ],
       canRetry = True, shouldEnableOfflineMode = None \<rparr>"

definition createAuthError :: "json \<Rightarrow> ErrorInfo" where \<comment> \<open>message: API token invalid or expired\<close>
  "createAuthError msg =
     \<lparr> type = Auth, severity = High,
       message = js ''API Token'' @ [0x65E0, 0x6548, 0x6216, 0x5DF2, 0x8FC7, 0x671F],
       details = msg,
       suggestions = [
         [0x68C0, 0x67E5] @ js ''API Token'' @ [0x662F, 0x5426, 0x6B63, 0x786E],
         [0x786E, 0x8BA4] @ js ''Token'' @ [0x662F, 0x5426, 0x5DF2, 0x8FC7, 0x671F],
         [0x91CD, 0x65B0, 0x751F, 0x6210] @ js ''API Token'',
         [0x68C0, 0x67E5] @ js ''Token'' @ [0x6743, 0x9650, 0x8BBE, 0x7F6E]
       ],
       canRetry = False, shouldEnableOfflineMode = None \<rparr>"

definition createForbiddenError :: "json \<Rightarrow> ErrorInfo" where \<comment> \<open>message: insufficient permission\<close>
  "createForbiddenError msg =
     \<lparr> type = Auth, severity = High,
       message = [0x6743, 0x9650, 0x4E0D, 0x8DB3],
       details = msg,
       suggestions = [
         [0x68C0, 0x67E5] @ js ''API Token'' @ [0x6743, 0x9650],
         [0x786E, 0x8BA4] @ js ''Account ID'' @ [0x662F, 0x5426, 0x6B63, 0x786E],
         [0x8054, 0x7CFB, 0x7BA1, 0x7406, 0x5458, 0x83B7, 0x53D6, 0x5FC5, 0x8981, 0x6743, 0x9650],
         [0x68C0, 0x67E5] @ js ''Worker'' @ [0x8BBF, 0x95EE, 0x6743, 0x9650, 0x8BBE, 0x7F6E]
       ],
       canRetry = False, shouldEnableOfflineMode = None \<rparr>"

definition createNotFoundError :: "json \<Rightarrow> ErrorInfo" where \<comment> \<open>message: resource not found\<close>
  "createNotFoundError msg =
     \<lparr> type = Api, severity = Medium,
       message = [0x8D44, 0x6E90, 0x672A, 0x627E, 0x5230],
       details = msg,
       suggestions = [
         [0x68C0, 0x67E5] @ js ''Worker ID'' @ [0x662F, 0x5426, 0x6B63, 0x786E],
         [0x786E, 0x8BA4] @ js ''Account ID'' @ [0x662F, 0x5426, 0x6B63, 0x786E],
         [0x68C0, 0x67E5] @ js ''Worker'' @ [0x662F, 0x5426, 0x5DF2, 0x90E8, 0x7F72],
         [0x9A8C, 0x8BC1] @ js ''API'' @ [0x7AEF, 0x70B9] @ js ''URL''
       ],
       canRetry = False, shouldEnableOfflineMode = None \<rparr>"

definition createRateLimitError :: "json \<Rightarrow> ErrorInfo" where \<comment> \<open>message: API call rate exceeded\<close>
  "createRateLimitError msg =
     \<lparr> type = Api, severity = Medium,
       message = js ''API'' @ [0x8C03, 0x7528, 0x9891, 0x7387, 0x8D85, 0x9650],
       details = msg,
       suggestions = [
         [0x7B49, 0x5F85, 0x4E00, 0x6BB5, 0x65F6, 0x95F4, 0x540E, 0x91CD, 0x8BD5],
         [0x51CF, 0x5C11] @ js ''API'' @ [0x8C03, 0x7528, 0x9891, 0x7387],
         [0x8003, 0x8651, 0x5347, 0x7EA7] @ js ''API'' @ [0x8BA1, 0x5212],
         [0x4F7F, 0x7528, 0x79BB, 0x7EBF, 0x6A21, 0x5F0F, 0x51CF, 0x5C11] @ js ''API'' @ [0x8C03, 0x7528]
       ],
       canRetry = True, shouldEnableOfflineMode = Some True \<rparr>"

definition createServerError :: "json \<Rightarrow> ErrorInfo" where \<comment> \<open>message: Cloudflare server error\<close>
  "createServerError msg =
     \<lparr> type = Api, severity = High,
       message = js ''Cloudflare'' @ [0x670D, 0x52A1, 0x5668, 0x9519, 0x8BEF],
       details = msg,
       suggestions = [
         [0x7A0D, 0x540E, 0x91CD, 0x8BD5],
         [0x68C0, 0x67E5] @ js ''Cloudflare'' @ [0x670D, 0x52A1, 0x72B6, 0x6001],
         [0x4F7F, 0x7528, 0x79BB, 0x7EBF, 0x6A21, 0x5F0F, 0x7EE7, 0x7EED, 0x5DE5, 0x4F5C],
         [0x8054, 0x7CFB] @ js ''Cloudflare'' @ [0x652F, 0x6301]
       ],
       canRetry = True, shouldEnableOfflineMode = Some True \<rparr>"

definition createConfigMissingError :: "json \<Rightarrow> ErrorInfo" where \<comment> \<open>message: configuration missing\<close>
  "createConfigMissingError msg =
     \<lparr> type = Config, severity = Critical,
       message = [0x914D, 0x7F6E, 0x4FE1, 0x606F, 0x7F3A, 0x5931],
       details = msg,
       suggestions = [
         [0x524D, 0x5F80, 0x914D, 0x7F6E, 0x9875, 0x9762, 0x8BBE, 0x7F6E] @ js ''API Token'',
         [0x786E, 0x4FDD] @ js ''Account ID'' @ [0x5DF2, 0x6B63, 0x786E, 0x586B, 0x5199],
         [0x68C0, 0x67E5] @ js ''Worker ID'' @ [0x914D, 0x7F6E],
         [0x4FDD, 0x5B58, 0x914D, 0x7F6E, 0x540E, 0x91CD, 0x8BD5]
       ],
       canRetry = False, shouldEnableOfflineMode = None \<rparr>"

definition createConfigInvalidError :: "json \<Rightarrow> ErrorInfo" where \<comment> \<open>message: configuration format invalid\<close>
  "createConfigInvalidError msg =
     \<lparr> type = Config, severity = High,
       message = [0x914D, 0x7F6E, 0x683C, 0x5F0F, 0x65E0, 0x6548],
       details = msg,
       suggestions = [
         [0x68C0, 0x67E5] @ js ''API Token'' @ [0x683C, 0x5F0F],
         [0x9A8C, 0x8BC1] @ js ''Account ID'' @ [0x683C, 0x5F0F],
         [0x786E, 0x8BA4] @ js ''Worker ID'' @ [0x683C, 0x5F0F],
         [0x53C2, 0x8003, 0x5B98, 0x65B9, 0x6587, 0x6863, 0x68C0, 0x67E5, 0x914D, 0x7F6E]
       ],
       canRetry = False, shouldEnableOfflineMode = None \<rparr>"

definition createUnknownError :: "json \<Rightarrow> ErrorInfo" where \<comment> \<open>message: unknown error\<close>
  "createUnknownError msg =
     \<lparr> type = Unknown, severity = Medium,
       message = [0x672A, 0x77E5, 0x9519, 0x8BEF],
       details = msg,
       suggestions = [
         [0x5C1D, 0x8BD5, 0x5237, 0x65B0, 0x9875, 0x9762],
         [0x68C0, 0x67E5, 0x6D4F, 0x89C8, 0x5668, 0x63A7, 0x5236, 0x53F0, 0x83B7, 0x53D6, 0x66F4, 0x591A, 0x4FE1, 0x606F],
         [0x8FD0, 0x884C, 0x7F51, 0x7EDC, 0x8BCA, 0x65AD],
         [0x8054, 0x7CFB, 0x6280, 0x672F, 0x652F, 0x6301]
       ],
       canRetry = True, shouldEnableOfflineMode = None \<rparr>"

text \<open>
  \<open>analyzeError(error, context?)\<close>. The search string is the template literal
  \<open>`${errorMessage} ${error?.stack || ''} ${context || ''}`\<close>. The twelve tests run in
  the order of the source, the first hit returns; each test goes through the \<open>RegExp\<close>
  object of the handler, so the function takes the pattern table and returns it as the
  calls leave it. The template literal converts the message and the stack to strings; when
  one of the two conversions throws, the call ends with that exception before any test.
\<close>

definition errorString_of :: "json option \<Rightarrow> jsstring option \<Rightarrow> exception + jsstring" where
  "errorString_of error context =
     (let errorMessage = extractErrorMessage error;
          stack = (case error of None \<Rightarrow> None | Some v \<Rightarrow> get_prop v (js ''stack''));
          stack_or_empty = (case stack of Some v \<Rightarrow> if truthy stack then v else JStr [] | None \<Rightarrow> JStr []);
          context_or_empty = (case context of None \<Rightarrow> [] | Some c \<Rightarrow> c)
      in case ToString errorMessage of
           Inl e \<Rightarrow> Inl e
         | Inr m \<Rightarrow>
             (case ToString stack_or_empty of
                Inl e \<Rightarrow> Inl e
              | Inr s \<Rightarrow> Inr (m @ js '' '' @ s @ js '' '' @ context_or_empty)))"

definition analyzeError ::
    "ErrorPatterns \<Rightarrow> json option \<Rightarrow> jsstring option
       \<Rightarrow> (exception + ErrorInfo) \<times> ErrorPatterns" where
  "analyzeError P0 error context =
     (let errorMessage = extractErrorMessage error in
      case errorString_of error context of
        Inl e \<Rightarrow> (Inl e, P0)
      | Inr errorString \<Rightarrow>
      let (hit, r) = RegExp_test (NETWORK_FAILED P0) errorString;
          P1 = P0\<lparr>NETWORK_FAILED := r\<rparr> in
      if hit then (Inr (createNetworkFailedError errorMessage), P1) else
      let (hit, r) = RegExp_test (NETWORK_TIMEOUT P1) errorString;
          P2 = P1\<lparr>NETWORK_TIMEOUT := r\<rparr> in
      if hit then (Inr (createTimeoutError errorMessage), P2) else
      let (hit, r) = RegExp_test (NETWORK_OFFLINE P2) errorString;
          P3 = P2\<lparr>NETWORK_OFFLINE := r\<rparr> in
      if hit then (Inr (createOfflineError errorMessage), P3) else
      let (hit, r) = RegExp_test (DNS_FAILED P3) errorString;
          P4 = P3\<lparr>DNS_FAILED := r\<rparr> in
      if hit then (Inr (createDnsError errorMessage), P4) else
      let (hit, r) = RegExp_test (CORS_ERROR P4) errorString;
          P5 = P4\<lparr>CORS_ERROR := r\<rparr> in
      if hit then (Inr (createCorsError errorMessage), P5) else
      let (hit, r) = RegExp_test (API_UNAUTHORIZED P5) errorString;
          P6 = P5\<lparr>API_UNAUTHORIZED := r\<rparr> in
      if hit then (Inr (createAuthError errorMessage), P6) else
      let (hit, r) = RegExp_test (API_FORBIDDEN P6) errorString;
          P7 = P6\<lparr>API_FORBIDDEN := r\<rparr> in
      if hit then (Inr (createForbiddenError errorMessage), P7) else
      let (hit, r) = RegExp_test (API_NOT_FOUND P7) errorString;
          P8 = P7\<lparr>API_NOT_FOUND := r\<rparr> in
      if hit then (Inr (createNotFoundError errorMessage), P8) else
      let (hit, r) = RegExp_test (API_RATE_LIMIT P8) errorString;
          P9 = P8\<lparr>API_RATE_LIMIT := r\<rparr> in
      if hit then (Inr (createRateLimitError errorMessage), P9) else
      let (hit, r) = RegExp_test (API_SERVER_ERROR P9) errorString;
          P10 = P9\<lparr>API_SERVER_ERROR := r\<rparr> in
      if hit then (Inr (createServerError errorMessage), P10) else
      let (hit, r) = RegExp_test (CONFIG_MISSING P10) errorString;
          P11 = P10\<lparr>CONFIG_MISSING := r\<rparr> in
      if hit then (Inr (createConfigMissingError errorMessage), P11) else
      let (hit, r) = RegExp_test (CONFIG_INVALID P11) errorString;
          P12 = P11\<lparr>CONFIG_INVALID := r\<rparr> in
      if hit then (Inr (createConfigInvalidError errorMessage), P12) else
      (Inr (createUnknownError errorMessage), P12))"

section \<open>errorHandler.ts: the diagnostic report\<close>

text \<open>
  \<open>interface NetworkDiagnosticResult\<close> and \<open>interface DiagnosticReport\<close>. The four
  probes are network requests; their results are the inputs of the model of
  \<open>generateDiagnosticReport\<close>, which is the part of the function after \<open>Promise.all\<close>
  has delivered them.
\<close>

record NetworkDiagnosticResult =
  success :: bool
  message :: jsstring
  details :: "json option"
  timestamp :: int
  duration :: "int option"

datatype OverallStatus = Healthy | Degraded | Failed

record Overall =
  status :: OverallStatus
  issues :: "jsstring list"
  recommendations :: "jsstring list"

record DiagnosticReport =
  basicConnectivity :: NetworkDiagnosticResult
  dnsResolution :: NetworkDiagnosticResult
  cloudflareApi :: NetworkDiagnosticResult
  corsSupport :: NetworkDiagnosticResult
  overall :: Overall

text \<open>The string literals of the report, as code units (an English gloss beside each).\<close>

definition ISSUE_BASIC :: jsstring where \<comment> \<open>basic network connection failed\<close>
  "ISSUE_BASIC = [0x57FA, 0x7840, 0x7F51, 0x7EDC, 0x8FDE, 0x63A5, 0x5931, 0x8D25]"

definition REC_BASIC :: jsstring where \<comment> \<open>check the network connection and the firewall settings\<close>
  "REC_BASIC = [0x68C0, 0x67E5, 0x7F51, 0x7EDC, 0x8FDE, 0x63A5, 0x548C, 0x9632, 0x706B, 0x5899,
     0x8BBE, 0x7F6E]"

definition ISSUE_DNS :: jsstring where \<comment> \<open>DNS resolution failed\<close>
  "ISSUE_DNS = js ''DNS'' @ [0x89E3, 0x6790, 0x5931, 0x8D25]"

definition REC_DNS :: jsstring where \<comment> \<open>check the DNS settings, try 8.8.8.8 or 1.1.1.1\<close>
  "REC_DNS = [0x68C0, 0x67E5] @ js ''DNS'' @ [0x8BBE, 0x7F6E, 0xFF0C, 0x5C1D, 0x8BD5, 0x4F7F,
     0x7528] @ js ''8.8.8.8'' @ [0x6216] @ js ''1.1.1.1''"

definition ISSUE_API :: jsstring where \<comment> \<open>Cloudflare API connection failed\<close>
  "ISSUE_API = js ''Cloudflare API'' @ [0x8FDE, 0x63A5, 0x5931, 0x8D25]"

definition REC_API_TOKEN :: jsstring where \<comment> \<open>check the validity and permissions of the API token\<close>
  "REC_API_TOKEN = [0x68C0, 0x67E5] @ js ''API Token'' @ [0x6709, 0x6548, 0x6027, 0x548C, 0x6743,
     0x9650, 0x8BBE, 0x7F6E]"

definition REC_API_NO_TOKEN :: jsstring where \<comment> \<open>configure a valid Cloudflare API token\<close>
  "REC_API_NO_TOKEN = [0x914D, 0x7F6E, 0x6709, 0x6548, 0x7684] @ js ''Cloudflare API Token''"

definition ISSUE_CORS :: jsstring where \<comment> \<open>CORS support abnormal\<close>
  "ISSUE_CORS = js ''CORS'' @ [0x652F, 0x6301, 0x5F02, 0x5E38]"

definition REC_CORS :: jsstring where \<comment> \<open>check the browser's CORS settings or use a proxy\<close>
  "REC_CORS = [0x68C0, 0x67E5, 0x6D4F, 0x89C8, 0x5668] @ js ''CORS'' @ [0x8BBE, 0x7F6E, 0x6216,
     0x4F7F, 0x7528, 0x4EE3, 0x7406]"

text \<open>
  \<open>generateDiagnosticReport(apiToken?)\<close>. The two arrays are built by \<open>push\<close> in the
  fixed order connectivity, DNS, API, CORS; \<open>if (apiToken)\<close> holds for a string that is
  present and not empty.
\<close>

definition generateDiagnosticReport ::
    "jsstring option \<Rightarrow> NetworkDiagnosticResult \<Rightarrow> NetworkDiagnosticResult \<Rightarrow>
     NetworkDiagnosticResult \<Rightarrow> NetworkDiagnosticResult \<Rightarrow> DiagnosticReport" where
  "generateDiagnosticReport apiToken basic dns api cors =
     (let tokenGiven = (case apiToken of None \<Rightarrow> False | Some t \<Rightarrow> t \<noteq> []);
          issues0 = [];
          recommendations0 = [];
          issues1 = (if \<not> success basic then issues0 @ [ISSUE_BASIC] else issues0);
          recommendations1 =
            (if \<not> success basic then recommendations0 @ [REC_BASIC] else recommendations0);
          issues2 = (if \<not> success dns then issues1 @ [ISSUE_DNS] else issues1);
          recommendations2 =
            (if \<not> success dns then recommendations1 @ [REC_DNS] else recommendations1);
          issues3 = (if \<not> success api then issues2 @ [ISSUE_API] else issues2);
          recommendations3 =
            (if \<not> success api
             then recommendations2 @ [if tokenGiven then REC_API_TOKEN else REC_API_NO_TOKEN]
             else recommendations2);
          issues4 = (if \<not> success cors then issues3 @ [ISSUE_CORS] else issues3);
          recommendations4 =
            (if \<not> success cors then recommendations3 @ [REC_CORS] else recommendations3);
          overallStatus =
            (if success basic \<and> success api
             then (if length issues4 = 0 then Healthy else Degraded)
             else Failed)
      in \<lparr> basicConnectivity = basic, dnsResolution = dns, cloudflareApi = api,
           corsSupport = cors,
           overall = \<lparr> status = overallStatus, issues = issues4,
                       recommendations = recommendations4 \<rparr> \<rparr>)"

section \<open>offlineManager.ts: the cache over localStorage\<close>

text \<open>
  \<open>localStorage\<close> is the list of its key/value pairs, in the order \<open>Object.keys\<close>
  lists the keys: \<open>setItem\<close> replaces the value of a key that is present and appends a
  new key, \<open>removeItem\<close> deletes the key, \<open>getItem\<close> gives \<open>None\<close> for \<open>null\<close>.
  Reading and removing always succeed in the model. Whether a write is accepted is up to
  the browser (it refuses when the quota is exceeded or when storage is disabled for the
  site): a \<open>write_policy\<close> gives its verdict on the write of a value under a key to a
  store, and \<open>setItem\<close> throws a \<open>QuotaExceededError\<close> and leaves the store as it is
  when the write is refused.
\<close>

type_synonym Storage = "(jsstring \<times> jsstring) list"


definition getItem :: "Storage \<Rightarrow> jsstring \<Rightarrow> jsstring option" where
  "getItem st k = map_of st k"


definition removeItem :: "Storage \<Rightarrow> jsstring \<Rightarrow> Storage" where
  "removeItem st k = AList.delete k st"

definition Object_keys :: "Storage \<Rightarrow> jsstring list" where
  "Object_keys st = map fst st"

definition startsWith :: "jsstring \<Rightarrow> jsstring \<Rightarrow> bool" where
  "startsWith s p = (take (length p) s = p)"

definition CACHE_DURATION :: int where
  "CACHE_DURATION = 24 * 60 * 60 * 1000"



text \<open>
  \<open>Date.now() - timestamp > CACHE_DURATION\<close>. The subtraction converts the timestamp to
  a number and throws when that conversion does; a timestamp that is not a number makes
  the difference \<open>NaN\<close> and the comparison false.
\<close>

definition isExpired :: "int \<Rightarrow> json option \<Rightarrow> exception + bool" where
  "isExpired now ts =
     (if (case ts of None \<Rightarrow> False | Some v \<Rightarrow> conversion_throws v) then Inl TypeError
      else Inr (case to_number ts of None \<Rightarrow> False | Some t \<Rightarrow> now - t > CACHE_DURATION))"

text \<open>
  \<open>getCachedData(key)\<close>: the value returned (\<open>Some JNull\<close> is \<open>null\<close>, \<open>None\<close> is
  \<open>undefined\<close>) and the store after the call. The \<open>catch\<close> block returns \<open>null\<close>;
  it is reached when \<open>JSON.parse\<close> throws, when the parsed value is \<open>null\<close>, on which
  \<open>.timestamp\<close> throws, and when the conversion of the timestamp throws.
\<close>

definition getCachedData :: "int \<Rightarrow> jsstring \<Rightarrow> Storage \<Rightarrow> json option \<times> Storage" where
  "getCachedData now key st =
     (let cacheKey = js ''cache-'' @ key in
      case getItem st cacheKey of
        None \<Rightarrow> (Some JNull, st)
      | Some stored \<Rightarrow>
          if stored = [] then (Some JNull, st)
          else (case JSON_parse stored of
                  None \<Rightarrow> (Some JNull, st)
                | Some entry \<Rightarrow>
                    if entry = JNull then (Some JNull, st)
                    else (case isExpired now (get_prop entry (js ''timestamp'')) of
                            Inl e \<Rightarrow> (Some JNull, st)
                          | Inr expired \<Rightarrow>
                              if expired then (Some JNull, removeItem st cacheKey)
                              else (get_prop entry (js ''data''), st))))"

text \<open>
  \<open>cleanExpiredCache()\<close>: one round of the \<open>forEach\<close> over the \<open>cache-\<close> keys. The
  inner \<open>catch\<close> removes the entry, whatever was thrown.
\<close>

definition clean_step :: "int \<Rightarrow> Storage \<Rightarrow> jsstring \<Rightarrow> Storage" where
  "clean_step now st key =
     (case getItem st key of
        None \<Rightarrow> st
      | Some stored \<Rightarrow>
          if stored = [] then st
          else (case JSON_parse stored of
                  None \<Rightarrow> removeItem st key
                | Some entry \<Rightarrow>
                    if entry = JNull then removeItem st key
                    else (case isExpired now (get_prop entry (js ''timestamp'')) of
                            Inl e \<Rightarrow> removeItem st key
                          | Inr expired \<Rightarrow> if expired then removeItem st key else st)))"

definition cleanExpiredCache :: "int \<Rightarrow> Storage \<Rightarrow> Storage" where
  "cleanExpiredCache now st =
     (let keys = Object_keys st;
          cacheKeys = filter (\<lambda>key. startsWith key (js ''cache-'')) keys
      in foldl (clean_step now) st cacheKeys)"

text \<open>
  \<open>getCacheStats()\<close>. The loop state is \<open>(totalSize, oldestTimestamp)\<close>. One round
  adds the length of the stored string before it parses it; the \<open>catch\<close> block is empty,
  so a string that does not parse (or parses to \<open>null\<close>) leaves \<open>oldestTimestamp\<close> as it
  was, and so does a comparison in which the conversion of an operand throws.
\<close>

record CacheStats =
  totalItems :: nat
  totalSize :: nat
  oldestItem :: "json option"

definition stats_step :: "Storage \<Rightarrow> nat \<times> json \<Rightarrow> jsstring \<Rightarrow> nat \<times> json" where
  "stats_step st acc key =
     (let (totalSize, oldestTimestamp) = acc in
      case getItem st key of
        None \<Rightarrow> (totalSize, oldestTimestamp)
      | Some stored \<Rightarrow>
          if stored = [] then (totalSize, oldestTimestamp)
          else
          let totalSize = totalSize + length stored in
          (case JSON_parse stored of
             None \<Rightarrow> (totalSize, oldestTimestamp)
           | Some entry \<Rightarrow>
               if entry = JNull then (totalSize, oldestTimestamp)
               else (case get_prop entry (js ''timestamp'') of
                       None \<Rightarrow> (totalSize, oldestTimestamp)
                     | Some ts \<Rightarrow>
                         if conversion_throws ts \<or> conversion_throws oldestTimestamp
                         then (totalSize, oldestTimestamp)
                         else if js_lt (Some ts) (Some oldestTimestamp) then (totalSize, ts)
                         else (totalSize, oldestTimestamp))))"

definition getCacheStats :: "int \<Rightarrow> Storage \<Rightarrow> CacheStats" where
  "getCacheStats now st =
     (let keys = Object_keys st;
          cacheKeys = filter (\<lambda>key. startsWith key (js ''cache-'')) keys;
          (totalSize, oldestTimestamp) = foldl (stats_step st) (0, JNum now) cacheKeys
      in \<lparr> totalItems = length cacheKeys,
           totalSize = totalSize,
           oldestItem = (if length cacheKeys > 0 then Some oldestTimestamp else None) \<rparr>)"

section \<open>The configuration file (part 002)\<close>

text \<open>\<open>interface Config\<close> of the store: seven string fields.\<close>

record Config =
  cloudflareApiToken :: jsstring
  cloudflareAccountId :: jsstring
  cloudflareWorkerId :: jsstring
  cosSecretId :: jsstring
  cosSecretKey :: jsstring
  cosBucket :: jsstring
  cosRegion :: jsstring

text \<open>A \<open>Config\<close> object as a plain data value, its properties in the declared order.\<close>

definition config_value :: "Config \<Rightarrow> json" where
  "config_value c = JObj [
     (js ''cloudflareApiToken'', JStr (cloudflareApiToken c)),
     (js ''cloudflareAccountId'', JStr (cloudflareAccountId c)),
     (js ''cloudflareWorkerId'', JStr (cloudflareWorkerId c)),
     (js ''cosSecretId'', JStr (cosSecretId c)),
     (js ''cosSecretKey'', JStr (cosSecretKey c)),
     (js ''cosBucket'', JStr (cosBucket c)),
     (js ''cosRegion'', JStr (cosRegion c))]"

record ValidationResult =
  isValid :: bool
  errors :: "jsstring list"
  warnings :: "jsstring list"

text \<open>The string literals of the validation, as code units (an English gloss beside each).\<close>

definition ERR_NOT_OBJECT :: jsstring where \<comment> \<open>configuration file format invalid: not a valid JSON object\<close>
  "ERR_NOT_OBJECT = [0x914D, 0x7F6E, 0x6587, 0x4EF6, 0x683C, 0x5F0F, 0x65E0, 0x6548, 0xFF1A, 0x4E0D, 0x662F, 0x6709, 0x6548, 0x7684] @ js ''JSON'' @ [0x5BF9, 0x8C61]"

definition ERR_NO_VERSION :: jsstring where \<comment> \<open>version missing\<close>
  "ERR_NO_VERSION = [0x7F3A, 0x5C11, 0x7248, 0x672C, 0x4FE1, 0x606F]"

definition ERR_VERSION_TYPE :: jsstring where \<comment> \<open>version has the wrong format\<close>
  "ERR_VERSION_TYPE = [0x7248, 0x672C, 0x4FE1, 0x606F, 0x683C, 0x5F0F, 0x9519, 0x8BEF]"

definition ERR_NO_TIMESTAMP :: jsstring where \<comment> \<open>timestamp missing\<close>
  "ERR_NO_TIMESTAMP = [0x7F3A, 0x5C11, 0x65F6, 0x95F4, 0x6233]"

definition ERR_TIMESTAMP_TYPE :: jsstring where \<comment> \<open>timestamp has the wrong format\<close>
  "ERR_TIMESTAMP_TYPE = [0x65F6, 0x95F4, 0x6233, 0x683C, 0x5F0F, 0x9519, 0x8BEF]"

definition ERR_TIMESTAMP_INVALID :: jsstring where \<comment> \<open>timestamp format invalid\<close>
  "ERR_TIMESTAMP_INVALID = [0x65F6, 0x95F4, 0x6233, 0x683C, 0x5F0F, 0x65E0, 0x6548]"

definition ERR_NO_CONFIG :: jsstring where \<comment> \<open>configuration missing\<close>
  "ERR_NO_CONFIG = [0x7F3A, 0x5C11, 0x914D, 0x7F6E, 0x4FE1, 0x606F]"

definition ERR_CONFIG_TYPE :: jsstring where \<comment> \<open>configuration has the wrong format\<close>
  "ERR_CONFIG_TYPE = [0x914D, 0x7F6E, 0x4FE1, 0x606F, 0x683C, 0x5F0F, 0x9519, 0x8BEF]"

definition ERR_FIELD_MISSING_PRE :: jsstring where \<comment> \<open>configuration field missing: (field)\<close>
  "ERR_FIELD_MISSING_PRE = [0x7F3A, 0x5C11, 0x914D, 0x7F6E, 0x5B57, 0x6BB5] @ js '': ''"

definition ERR_FIELD_TYPE_PRE :: jsstring where \<comment> \<open>configuration field (field) has the wrong type, should be a string\<close>
  "ERR_FIELD_TYPE_PRE = [0x914D, 0x7F6E, 0x5B57, 0x6BB5] @ js '' ''"

definition ERR_FIELD_TYPE_POST :: jsstring where
  "ERR_FIELD_TYPE_POST = js '' '' @ [0x7C7B, 0x578B, 0x9519, 0x8BEF, 0xFF0C, 0x5E94, 0x4E3A, 0x5B57, 0x7B26, 0x4E32]"

definition WARN_CLOUDFLARE_PRE :: jsstring where \<comment> \<open>Cloudflare configuration incomplete, missing: (fields)\<close>
  "WARN_CLOUDFLARE_PRE = js ''Cloudflare'' @ [0x914D, 0x7F6E, 0x4E0D, 0x5B8C, 0x6574, 0xFF0C, 0x7F3A, 0x5C11] @ js '': ''"

definition WARN_COS_PRE :: jsstring where \<comment> \<open>Tencent Cloud COS configuration incomplete, missing: (fields)\<close>
  "WARN_COS_PRE = [0x817E, 0x8BAF, 0x4E91] @ js ''COS'' @ [0x914D, 0x7F6E, 0x4E0D, 0x5B8C, 0x6574, 0xFF0C, 0x7F3A, 0x5C11] @ js '': ''"

definition WARN_REGION_PRE :: jsstring where \<comment> \<open>COS region '(region)' may not be a valid region code\<close>
  "WARN_REGION_PRE = js ''COS'' @ [0x5730, 0x57DF] @ js '' '' @ [0x0027]"

definition WARN_REGION_POST :: jsstring where
  "WARN_REGION_POST = [0x0027] @ js '' '' @ [0x53EF, 0x80FD, 0x4E0D, 0x662F, 0x6709, 0x6548, 0x7684, 0x5730, 0x57DF, 0x4EE3, 0x7801]"

definition WARN_TOKEN_LENGTH :: jsstring where \<comment> \<open>the length of the Cloudflare API token may be wrong\<close>
  "WARN_TOKEN_LENGTH = js ''Cloudflare API Token '' @ [0x957F, 0x5EA6, 0x53EF, 0x80FD, 0x4E0D, 0x6B63, 0x786E]"

definition WARN_ACCOUNT_ID :: jsstring where \<comment> \<open>the format of the Cloudflare account id may be wrong (should be 32 hexadecimal characters)\<close>
  "WARN_ACCOUNT_ID = js ''Cloudflare Account ID '' @ [0x683C, 0x5F0F, 0x53EF, 0x80FD, 0x4E0D, 0x6B63, 0x786E, 0xFF08, 0x5E94, 0x4E3A] @ js ''32'' @ [0x4F4D, 0x5341, 0x516D, 0x8FDB, 0x5236, 0x5B57, 0x7B26, 0x4E32, 0xFF09]"

definition ERR_IMPORT_INVALID :: jsstring where \<comment> \<open>configuration file format invalid\<close>
  "ERR_IMPORT_INVALID = [0x914D, 0x7F6E, 0x6587, 0x4EF6, 0x683C, 0x5F0F, 0x65E0, 0x6548]"

definition EXPORT_DESCRIPTION :: jsstring where \<comment> \<open>API configuration file export\<close>
  "EXPORT_DESCRIPTION = js ''API'' @ [0x914D, 0x7F6E, 0x6587, 0x4EF6, 0x5BFC, 0x51FA]"

definition requiredFields :: "jsstring list" where
  "requiredFields = [js ''cloudflareApiToken'', js ''cloudflareAccountId'',
     js ''cloudflareWorkerId'', js ''cosSecretId'', js ''cosSecretKey'', js ''cosBucket'',
     js ''cosRegion'']"

definition cloudflareFields :: "jsstring list" where
  "cloudflareFields = [js ''cloudflareApiToken'', js ''cloudflareAccountId'',
     js ''cloudflareWorkerId'']"

definition cosFields :: "jsstring list" where
  "cosFields = [js ''cosSecretId'', js ''cosSecretKey'', js ''cosBucket'', js ''cosRegion'']"

definition validRegions :: "jsstring list" where
  "validRegions = [js ''ap-beijing'', js ''ap-shanghai'', js ''ap-guangzhou'', js ''ap-chengdu'',
     js ''ap-nanjing'', js ''ap-hongkong'']"

text \<open>\<open>typeof v === 'string'\<close> and \<open>typeof v === 'object'\<close> (which holds for \<open>null\<close> too).\<close>

fun is_string :: "json option \<Rightarrow> bool" where
  "is_string (Some (JStr s)) = True"
| "is_string v = False"

fun is_object :: "json option \<Rightarrow> bool" where
  "is_object (Some JNull) = True"
| "is_object (Some (JArr xs)) = True"
| "is_object (Some (JObj kvs)) = True"
| "is_object v = False"

text \<open>\<open>/^[a-f0-9]{32}$/i.test(v)\<close>, on the string of \<open>v\<close>.\<close>

definition is_hex_ci :: "nat \<Rightarrow> bool" where
  "is_hex_ci c = (is_digit c \<or> (65 \<le> canon c \<and> canon c \<le> 70))"

definition account_id_shape :: "json \<Rightarrow> bool" where
  "account_id_shape v = (length (to_string v) = 32 \<and> list_all is_hex_ci (to_string v))"

text \<open>One round of the loop over \<open>requiredFields\<close>.\<close>

definition check_field :: "json \<Rightarrow> jsstring list \<Rightarrow> jsstring \<Rightarrow> jsstring list" where
  "check_field config errs field =
     (if \<not> has_prop config field then errs @ [ERR_FIELD_MISSING_PRE @ field]
      else if \<not> is_string (get_prop config field)
      then errs @ [ERR_FIELD_TYPE_PRE @ field @ ERR_FIELD_TYPE_POST]
      else errs)"

text \<open>
  \<open>validateConfigFileDetailed(data)\<close>. Whether \<open>new Date(s).getTime()\<close> is a number
  depends on the date parser of the platform, which is the parameter \<open>dateParses\<close>.
  The three checks of format at the end convert the region, the length of the token and
  the account id. Such a value is converted by \<open>to_string\<close> also where its conversion
  throws; this can only happen for a field that is not a string, for which the loop over
  the required fields has recorded an error before.
\<close>

definition validateConfigFileDetailed :: "(jsstring \<Rightarrow> bool) \<Rightarrow> json \<Rightarrow> ValidationResult" where
  "validateConfigFileDetailed dateParses data =
     (if \<not> truthy (Some data) \<or> \<not> is_object (Some data)
      then \<lparr> isValid = False, errors = [ERR_NOT_OBJECT], warnings = [] \<rparr>
      else
      let version = get_prop data (js ''version'');
          errors1 =
            (if \<not> truthy version then [ERR_NO_VERSION]
             else if \<not> is_string version then [ERR_VERSION_TYPE]
             else []);
          timestamp = get_prop data (js ''timestamp'');
          errors2 =
            (if \<not> truthy timestamp then errors1 @ [ERR_NO_TIMESTAMP]
             else (case timestamp of
                     Some (JStr s) \<Rightarrow>
                       if \<not> dateParses s then errors1 @ [ERR_TIMESTAMP_INVALID] else errors1
                   | _ \<Rightarrow> errors1 @ [ERR_TIMESTAMP_TYPE]))
      in
      if \<not> truthy (get_prop data (js ''config''))
      then \<lparr> isValid = False, errors = errors2 @ [ERR_NO_CONFIG], warnings = [] \<rparr>
      else if \<not> is_object (get_prop data (js ''config''))
      then \<lparr> isValid = False, errors = errors2 @ [ERR_CONFIG_TYPE], warnings = [] \<rparr>
      else
      (case get_prop data (js ''config'') of
         None \<Rightarrow> \<lparr> isValid = False, errors = errors2 @ [ERR_NO_CONFIG], warnings = [] \<rparr>
       | Some config \<Rightarrow>
      let errors3 = foldl (check_field config) errors2 requiredFields;
          hasCloudflareConfig = list_ex (\<lambda>field. truthy (get_prop config field)) cloudflareFields;
          missingCloudflareFields =
            filter (\<lambda>field. \<not> truthy (get_prop config field)) cloudflareFields;
          warnings1 =
            (if hasCloudflareConfig \<and> length missingCloudflareFields > 0
             then [WARN_CLOUDFLARE_PRE @ join (js '', '') missingCloudflareFields]
             else []);
          hasCosConfig = list_ex (\<lambda>field. truthy (get_prop config field)) cosFields;
          missingCosFields = filter (\<lambda>field. \<not> truthy (get_prop config field)) cosFields;
          warnings2 =
            (if hasCosConfig \<and> length missingCosFields > 0
             then warnings1 @ [WARN_COS_PRE @ join (js '', '') missingCosFields]
             else warnings1);
          cosRegion = get_prop config (js ''cosRegion'');
          warnings3 =
            (case cosRegion of
               None \<Rightarrow> warnings2
             | Some region \<Rightarrow>
                 if truthy cosRegion \<and> region \<notin> set (map JStr validRegions)
                 then warnings2 @ [WARN_REGION_PRE @ to_string region @ WARN_REGION_POST]
                 else warnings2);
          token = get_prop config (js ''cloudflareApiToken'');
          warnings4 =
            (case token of
               None \<Rightarrow> warnings3
             | Some t \<Rightarrow>
                 if truthy token \<and> js_lt (get_prop t (js ''length'')) (Some (JNum 20))
                 then warnings3 @ [WARN_TOKEN_LENGTH]
                 else warnings3);
          accountId = get_prop config (js ''cloudflareAccountId'');
          warnings5 =
            (case accountId of
               None \<Rightarrow> warnings4
             | Some a \<Rightarrow>
                 if truthy accountId \<and> \<not> account_id_shape a
                 then warnings4 @ [WARN_ACCOUNT_ID]
                 else warnings4)
      in \<lparr> isValid = (length errors3 = 0), errors = errors3, warnings = warnings5 \<rparr>))"

definition validateConfigFile :: "(jsstring \<Rightarrow> bool) \<Rightarrow> json \<Rightarrow> bool" where
  "validateConfigFile dateParses data = isValid (validateConfigFileDetailed dateParses data)"

section \<open>The configuration file: export and import (part 002)\<close>

text \<open>
  \<open>exportConfigToFile(config)\<close> builds the file object and offers
  \<open>JSON.stringify(configFile, null, 2)\<close> for download; the model gives the content of
  the file, \<open>nowIso\<close> being \<open>new Date().toISOString()\<close>.
\<close>

definition configFile_value :: "jsstring \<Rightarrow> Config \<Rightarrow> json" where
  "configFile_value nowIso config = JObj [
     (js ''version'', JStr (js ''1.0.0'')),
     (js ''timestamp'', JStr nowIso),
     (js ''config'', config_value config),
     (js ''metadata'', JObj [
        (js ''exportedBy'', JStr (js ''Version Manager'')),
        (js ''description'', JStr EXPORT_DESCRIPTION)])]"

definition exportConfigToFile :: "jsstring \<Rightarrow> Config \<Rightarrow> jsstring" where
  "exportConfigToFile nowIso config = JSON_stringify (configFile_value nowIso config) 2"

text \<open>
  \<open>importConfigFromFile()\<close> on the content of the chosen file: the promise is rejected
  with the \<open>SyntaxError\<close> of \<open>JSON.parse\<close> or with the error "configuration file format
  invalid", or resolved with \<open>data.config\<close>.
\<close>

datatype import_error = SyntaxError | FormatInvalid jsstring

definition importConfigFromFile ::
    "(jsstring \<Rightarrow> bool) \<Rightarrow> jsstring \<Rightarrow> import_error + json option" where
  "importConfigFromFile dateParses content =
     (case JSON_parse content of
        None \<Rightarrow> Inl SyntaxError
      | Some data \<Rightarrow>
          if \<not> validateConfigFile dateParses data then Inl (FormatInvalid ERR_IMPORT_INVALID)
          else Inr (get_prop data (js ''config'')))"

section \<open>Notions used to state the properties of analyzeError\<close>

text \<open>
  A string contains a needle case-insensitively when, at some position, the needle and the
  string agree character by character up to the case of ASCII letters.
\<close>

fun starts_with_ci :: "jsstring \<Rightarrow> jsstring \<Rightarrow> bool" where
  "starts_with_ci [] s = True"
| "starts_with_ci (p # ps) [] = False"
| "starts_with_ci (p # ps) (c # cs) = (canon p = canon c \<and> starts_with_ci ps cs)"

fun contains_ci :: "jsstring \<Rightarrow> jsstring \<Rightarrow> bool" where
  "contains_ci needle [] = starts_with_ci needle []"
| "contains_ci needle (c # cs) = (starts_with_ci needle (c # cs) \<or> contains_ci needle cs)"

text \<open>
  The pattern table with arbitrary values in the twelve \<open>lastIndex\<close> properties, the
  only mutable state the handler object holds: \<open>f k\<close> is the value in the \<open>k\<close>-th
  pattern.
\<close>

definition with_lastIndex :: "(nat \<Rightarrow> nat) \<Rightarrow> ErrorPatterns \<Rightarrow> ErrorPatterns" where
  "with_lastIndex f P = \<lparr>
     NETWORK_FAILED = (NETWORK_FAILED P)\<lparr>lastIndex := f 0\<rparr>,
     NETWORK_TIMEOUT = (NETWORK_TIMEOUT P)\<lparr>lastIndex := f 1\<rparr>,
     NETWORK_OFFLINE = (NETWORK_OFFLINE P)\<lparr>lastIndex := f 2\<rparr>,
     DNS_FAILED = (DNS_FAILED P)\<lparr>lastIndex := f 3\<rparr>,
     CORS_ERROR = (CORS_ERROR P)\<lparr>lastIndex := f 4\<rparr>,
     API_UNAUTHORIZED = (API_UNAUTHORIZED P)\<lparr>lastIndex := f 5\<rparr>,
     API_FORBIDDEN = (API_FORBIDDEN P)\<lparr>lastIndex := f 6\<rparr>,
     API_NOT_FOUND = (API_NOT_FOUND P)\<lparr>lastIndex := f 7\<rparr>,
     API_RATE_LIMIT = (API_RATE_LIMIT P)\<lparr>lastIndex := f 8\<rparr>,
     API_SERVER_ERROR = (API_SERVER_ERROR P)\<lparr>lastIndex := f 9\<rparr>,
     CONFIG_MISSING = (CONFIG_MISSING P)\<lparr>lastIndex := f 10\<rparr>,
     CONFIG_INVALID = (CONFIG_INVALID P)\<lparr>lastIndex := f 11\<rparr> \<rparr>"

section \<open>Notions used to state and prove the round trips\<close>

text \<open>The tokens of a value, which both the serializer writes and the parser reads.\<close>

fun sepc :: "tok list list \<Rightarrow> tok list" where
  "sepc [] = []"
| "sepc [x] = x"
| "sepc (x # y # ys) = x @ TComma # sepc (y # ys)"

fun toks :: "json \<Rightarrow> tok list" where
  "toks JNull = [TNull]"
| "toks (JBool b) = [if b then TTrue else TFalse]"
| "toks (JNum n) = [TNum n]"
| "toks (JStr s) = [TStr s]"
| "toks (JArr xs) = TLBrack # sepc (map toks xs) @ [TRBrack]"
| "toks (JObj kvs) =
     TLBrace # sepc (map (\<lambda>kv. TStr (fst kv) # TColon # toks (snd kv)) kvs) @ [TRBrace]"

text \<open>A rest of the input that cannot continue a number.\<close>

definition safe :: "jsstring \<Rightarrow> bool" where
  "safe r = (case r of [] \<Rightarrow> True | c # cs \<Rightarrow> \<not> is_digit c)"

definition lexes_to :: "jsstring \<Rightarrow> tok list \<Rightarrow> bool" where
  "lexes_to p t = (\<forall>r. safe r \<longrightarrow> lex Idle (p @ r) = emit t (lex Idle r))"

definition parses_back :: "json \<Rightarrow> bool" where
  "parses_back v =
     (\<forall>m st rest. m = Value \<or> m = FirstValue \<longrightarrow>
        prun m st (toks v @ rest)
          = (case push v st of None \<Rightarrow> None | Some (m', st') \<Rightarrow> prun m' st' rest))"

section \<open>Concrete inputs\<close>

text \<open>A probe result that succeeded and one that failed, for concrete runs of the diagnostic report.\<close>

definition probe_ok :: NetworkDiagnosticResult where
  "probe_ok = \<lparr> success = True, message = js ''ok'', details = None, timestamp = 0,
     duration = Some 1 \<rparr>"

definition probe_failed :: NetworkDiagnosticResult where
  "probe_failed = \<lparr> success = False, message = js ''failed'', details = None, timestamp = 0,
     duration = Some 1 \<rparr>"

text \<open>
  A date parser that accepts one timestamp in the format of \<open>toISOString\<close>, and the
  configuration file whose seven fields are all the empty string.
\<close>

definition sample_date :: "jsstring \<Rightarrow> bool" where
  "sample_date s = (s = js ''2024-05-01T08:30:00.000Z'')"

definition empty_config :: Config where
  "empty_config = \<lparr> cloudflareApiToken = [], cloudflareAccountId = [],
     cloudflareWorkerId = [], cosSecretId = [], cosSecretKey = [], cosBucket = [],
     cosRegion = [] \<rparr>"

definition empty_config_file :: json where
  "empty_config_file = JObj [
     (js ''version'', JStr (js ''1.0.0'')),
     (js ''timestamp'', JStr (js ''2024-05-01T08:30:00.000Z'')),
     (js ''config'', config_value empty_config)]"

text \<open>A store whose only entry is a \<open>cache-\<close> entry that is not JSON, and a configuration.\<close>

definition corrupt_store :: Storage where
  "corrupt_store = [(js ''cache-worker-code'', js ''{oops'')]"

definition sample_config :: Config where
  "sample_config = \<lparr> cloudflareApiToken = js ''tok\"en'', cloudflareAccountId = js ''0123'',
     cloudflareWorkerId = js ''worker'', cosSecretId = [], cosSecretKey = [0x5BC6, 0x94A5],
     cosBucket = js ''bucket-1'', cosRegion = js ''ap-chengdu'' \<rparr>"



text \<open>
  An error object whose message is a string and whose stack is an object with an own
  property \<open>toString\<close>.
\<close>

definition bad_stack_error :: json where
  "bad_stack_error = JObj [
     (js ''message'', JStr (js ''Failed to fetch'')),
     (js ''stack'', JObj [(js ''toString'', JNum 1)])]"

section \<open>Properties of the retry policy\<close>

subsection \<open>Doubles\<close>

lemma bit_length_0: "bit_length 0 = 0"
  by (simp add: bit_length.simps)

lemma bit_length_double: "0 < x \<Longrightarrow> bit_length (2 * x) = Suc (bit_length x)"
  by (subst bit_length.simps) simp

lemma bit_length_shift: "0 < x \<Longrightarrow> bit_length (x * 2 ^ n) = bit_length x + n"
proof (induction n)
  case 0
  show ?case by simp
next
  case (Suc n)
  have "bit_length (x * 2 ^ Suc n) = bit_length (2 * (x * 2 ^ n))"
    by (simp add: mult.commute mult.left_commute)
  also have "\<dots> = Suc (bit_length (x * 2 ^ n))"
    using Suc.prems by (intro bit_length_double) simp
  finally show ?case using Suc by simp
qed

lemma bit_length_bounds: "0 < x \<Longrightarrow> 2 ^ (bit_length x - 1) \<le> x \<and> x < 2 ^ bit_length x"
proof (induction x rule: bit_length.induct)
  case (1 n)
  show ?case
  proof (cases "n div 2 = 0")
    case True
    with 1(2) have "n = 1" by (simp add: div_eq_0_iff) 
    then show ?thesis by (simp add: bit_length.simps)
  next
    case False
    then have h: "0 < n div 2" by simp
    from 1(1) [OF _ h] 1(2)
    have ih: "2 ^ (bit_length (n div 2) - 1) \<le> n div 2" "n div 2 < 2 ^ bit_length (n div 2)"
      by simp_all
    have bl: "bit_length n = Suc (bit_length (n div 2))"
      using 1(2) by (subst bit_length.simps) simp
    have pos: "bit_length (n div 2) > 0"
      using h by (subst bit_length.simps) simp
    then obtain m where m: "bit_length (n div 2) = Suc m"
      by (cases "bit_length (n div 2)") simp_all
    from ih m have "2 * 2 ^ m \<le> n" "n < 2 * 2 ^ Suc m" by simp_all
    then show ?thesis by (simp add: bl m)
  qed
qed

lemma bit_length_le:
  assumes "x < 2 ^ n"
  shows "bit_length x \<le> n"
proof (cases "x = 0")
  case True
  then show ?thesis by (simp add: bit_length_0)
next
  case False
  then have "(2::nat) ^ (bit_length x - 1) \<le> x" using bit_length_bounds by simp
  from this assms have "(2::nat) ^ (bit_length x - 1) < 2 ^ n" by (rule le_less_trans)
  then have "bit_length x - 1 < n" by (rule power_less_imp_less_exp [rotated]) simp
  then show ?thesis by simp
qed

lemma round_nat_exact: "2 ^ (bit_length x - 53) dvd x \<Longrightarrow> round_nat x = x"
  by (auto simp: round_nat_def Let_def)

lemma round_nat_large:
  assumes "2 ^ 1024 \<le> x"
  shows "2 ^ 1024 \<le> round_nat x"
proof -
  define b where "b = bit_length x"
  have "(0::nat) < 2 ^ 1024" by (rule zero_less_power) simp
  from this assms have x0: "0 < x" by (rule less_le_trans)
  then have lo: "2 ^ (b - 1) \<le> x" and hi: "x < 2 ^ b"
    using bit_length_bounds [of x] by (simp_all add: b_def)
  from assms hi have "(2::nat) ^ 1024 < 2 ^ b" by (rule le_less_trans)
  then have b: "1024 < b" by (rule power_less_imp_less_exp [rotated]) simp
  define k where "k = b - 53"
  define q where "q = x div 2 ^ k"
  have e: "b - 1 = k + 52" using b by (simp add: k_def)
  have "(2::nat) ^ (k + 52) \<le> x" using lo by (simp only: e)
  then have "(2::nat) ^ 52 * 2 ^ k \<le> x" by (simp only: power_add mult.commute)
  then have "(2::nat) ^ 52 \<le> q"
    unfolding q_def by (simp only: less_eq_div_iff_mult_less_eq zero_less_power zero_less_numeral)
  then have "(2::nat) ^ 52 * 2 ^ k \<le> q * 2 ^ k" by (rule mult_le_mono1)
  then have l1: "(2::nat) ^ (k + 52) \<le> q * 2 ^ k" by (simp only: power_add mult.commute)
  have "(1024::nat) \<le> k + 52" using b by (simp add: k_def)
  then have l0: "(2::nat) ^ 1024 \<le> 2 ^ (k + 52)" by (rule power_increasing) simp
  have "round_nat x = q * 2 ^ k \<or> round_nat x = (q + 1) * 2 ^ k"
    unfolding round_nat_def Let_def b_def [symmetric] k_def [symmetric] q_def [symmetric]
    by (rule if_split [THEN iffD2]) blast
  then have l2: "q * 2 ^ k \<le> round_nat x"
  proof
    assume "round_nat x = q * 2 ^ k"
    then show ?thesis by (simp only: le_refl)
  next
    assume "round_nat x = (q + 1) * 2 ^ k"
    then show ?thesis by (simp only: mult_le_mono1 le_add1)
  qed
  from l0 l1 have "(2::nat) ^ 1024 \<le> q * 2 ^ k" by (rule le_trans)
  from this l2 show ?thesis by (rule le_trans)
qed

lemma is_double_nat:
  "is_double (int x) = (x < 2 ^ 1024 \<and> 2 ^ (bit_length x - 53) dvd x)"
proof -
  have "(int x < 2 ^ 1024) = (x < 2 ^ 1024)"
    by (simp only: of_nat_less_numeral_power_cancel_iff)
  moreover have "((2::int) ^ (bit_length x - 53) dvd int x) = (2 ^ (bit_length x - 53) dvd x)"
    by (metis int_dvd_int_iff of_nat_numeral of_nat_power)
  ultimately show ?thesis by (simp only: is_double_def abs_of_nat nat_int)
qed

lemma to_double_nat:
  "to_double (int x) = (if 2 ^ 1024 \<le> round_nat x then Infinity else Num (int (round_nat x)))"
  by (simp only: to_double_def Let_def abs_of_nat nat_int of_nat_less_0_iff if_False)

lemma to_double_id_nat: 
  assumes "is_double (int x)"
  shows "to_double (int x) = Num (int x)"
proof -
  from assms have lt: "x < 2 ^ 1024" and dv: "2 ^ (bit_length x - 53) dvd x"
    by (simp_all only: is_double_nat)
  from dv have r: "round_nat x = x" by (rule round_nat_exact)
  from lt have "\<not> 2 ^ 1024 \<le> x" by (simp only: not_le)
  then show ?thesis by (simp only: to_double_nat r if_False)
qed

lemma to_double_large_nat:
  assumes "2 ^ 1024 \<le> x"
  shows "to_double (int x) = Infinity"
  using round_nat_large [OF assms] by (simp only: to_double_nat if_True)

lemma is_double_shift:
  assumes "0 < x" and "is_double (int x)" and "x * 2 ^ n < 2 ^ 1024"
  shows "is_double (int (x * 2 ^ n))"
proof -
  from assms(2) have dv: "2 ^ (bit_length x - 53) dvd x"
    by (simp only: is_double_nat)
  have bl: "bit_length (x * 2 ^ n) = bit_length x + n"
    using assms(1) by (rule bit_length_shift)
  have "(2::nat) ^ (bit_length x + n - 53) dvd x * 2 ^ n"
  proof (cases "53 \<le> bit_length x")
    case True
    then have "bit_length x + n - 53 = (bit_length x - 53) + n" by simp
    moreover have "(2::nat) ^ ((bit_length x - 53) + n) dvd x * 2 ^ n"
      unfolding power_add using dv by (rule mult_dvd_mono) (rule dvd_refl)
    ultimately show ?thesis by (simp only:)
  next
    case False
    then have "bit_length x + n - 53 \<le> n" by simp
    then have "(2::nat) ^ (bit_length x + n - 53) dvd 2 ^ n" by (rule le_imp_power_dvd)
    then show ?thesis by (rule dvd_mult)
  qed
  with assms(3) show ?thesis by (simp only: is_double_nat bl simp_thms)
qed

lemma is_double_small:
  assumes "x < 2 ^ 53"
  shows "is_double (int x)"
proof -
  from assms have "bit_length x \<le> 53" by (rule bit_length_le)
  then have k: "bit_length x - 53 = 0" by simp
  have "(2::nat) ^ 53 \<le> 2 ^ 1024" by (rule power_increasing) simp_all
  with assms have "x < 2 ^ 1024" by (rule less_le_trans)
  then show ?thesis by (simp only: is_double_nat k power_0 one_dvd simp_thms)
qed

text \<open>The product of a double and a power of two is exact, or it overflows.\<close>

lemma to_double_shift:
  assumes "0 < x" and "is_double (int x)"
  shows "to_double (int (x * 2 ^ n))
           = (if x * 2 ^ n < 2 ^ 1024 then Num (int (x * 2 ^ n)) else Infinity)"
proof (cases "x * 2 ^ n < 2 ^ 1024")
  case True
  with assms have "is_double (int (x * 2 ^ n))" by (rule is_double_shift)
  then have "to_double (int (x * 2 ^ n)) = Num (int (x * 2 ^ n))" by (rule to_double_id_nat)
  with True show ?thesis by (simp only: if_True)
next
  case False
  then have "2 ^ 1024 \<le> x * 2 ^ n" by (simp only: not_less)
  then have "to_double (int (x * 2 ^ n)) = Infinity" by (rule to_double_large_nat)
  with False show ?thesis by (simp only: if_False)
qed

lemma Math_pow_2: "Math_pow 2 n = (if n < 1024 then Num (2 ^ n) else Infinity)"
proof -
  have one: "is_double (int 1)"
    by (rule is_double_small) simp
  have m: "(1::nat) * 2 ^ n = 2 ^ n" by (rule nat_mult_1)
  have "to_double (int (1 * 2 ^ n))
          = (if 1 * 2 ^ n < (2::nat) ^ 1024 then Num (int (1 * 2 ^ n)) else Infinity)"
    using one by (intro to_double_shift) simp_all
  then have t: "to_double (int (2 ^ n))
          = (if 2 ^ n < (2::nat) ^ 1024 then Num (int (2 ^ n)) else Infinity)"
    by (simp only: m)
  have c: "((2::nat) ^ n < 2 ^ 1024) = (n < 1024)"
    by (rule power_strict_increasing_iff) simp
  have i: "int (2 ^ n) = 2 ^ n" by simp
  show ?thesis unfolding Math_pow_def using t by (simp only: c i)
qed

text \<open>A positive base: the capped product, also when the product overflows.\<close>

lemma calculateRetryDelay_positive:
  assumes "is_double b" and "0 < b"
  shows "calculateRetryDelay n (Some (Num b)) = Num (min (b * 2 ^ n) 10000)"
proof -
  define x where "x = nat b"
  have b: "b = int x" and x: "0 < x" using assms(2) by (simp_all add: x_def)
  have d: "is_double (int x)" using assms(1) by (simp only: b)
  have big: "(10000::nat) < 2 ^ 1024"
  proof -
    have "(10000::nat) < 2 ^ 14" by simp
    also have "(2::nat) ^ 14 \<le> 2 ^ 1024" by (rule power_increasing) simp_all
    finally show ?thesis .
  qed
  have p: "int x * 2 ^ n = int (x * 2 ^ n)" by simp
  show ?thesis
  proof (cases "x * 2 ^ n < 2 ^ 1024")
    case True
    then have n: "n < 1024"
    proof -
      have "(2::nat) ^ n \<le> x * 2 ^ n" using x by simp
      from this True have "(2::nat) ^ n < 2 ^ 1024" by (rule le_less_trans)
      then show ?thesis by (rule power_less_imp_less_exp [rotated]) simp
    qed
    have "to_double (int (x * 2 ^ n)) = Num (int (x * 2 ^ n))"
      using to_double_shift [OF x d, of n] True by (simp only: if_True)
    then have "times_number (Num (int x)) (Math_pow 2 n) = Num (int x * 2 ^ n)"
      using n by (simp only: Math_pow_2 if_True times_number.simps p)
    then show ?thesis
      unfolding calculateRetryDelay_def b by (simp add: min_def)
  next
    case False
    then have le: "2 ^ 1024 \<le> x * 2 ^ n" by (simp only: not_less)
    have inf: "times_number (Num (int x)) (Math_pow 2 n) = Infinity"
    proof (cases "n < 1024")
      case True
      have "to_double (int (x * 2 ^ n)) = Infinity"
        using to_double_shift [OF x d, of n] False by (simp only: if_False)
      then show ?thesis using True by (simp only: Math_pow_2 if_True times_number.simps p)
    next
      case False
      then show ?thesis using x by (simp add: Math_pow_2 signed_infinity_def)
    qed
    from big le have "10000 < x * 2 ^ n" by (rule less_le_trans)
    then have "(10000::int) < int (x * 2 ^ n)" by (simp only: of_nat_less_iff [symmetric] of_nat_numeral)
    then have "min (int x * 2 ^ n) 10000 = 10000" by (simp only: p min_def) simp
    then show ?thesis
      unfolding calculateRetryDelay_def b by (simp add: inf)
  qed
qed

text \<open>The base 0: from 1024 retries on the product is \<open>0 * Infinity\<close>.\<close>

lemma calculateRetryDelay_zero:
  "calculateRetryDelay n (Some (Num 0)) = (if n < 1024 then Num 0 else NaN)"
proof -
  have z: "to_double 0 = Num 0"
    using to_double_id_nat [of 0] is_double_small [of 0] by simp
  show ?thesis
    by (simp add: calculateRetryDelay_def Math_pow_2 z signed_infinity_def)
qed

text \<open>
  A negative base: the product is below the cap, and it is \<open>-Infinity\<close> once it
  overflows.
\<close>

lemma to_double_neg_nat:
  assumes "0 < x"
  shows "to_double (- int x)
           = (if 2 ^ 1024 \<le> round_nat x then MinusInfinity else Num (- int (round_nat x)))"
proof -
  have n: "- int x < 0" using assms by simp
  have a: "nat \<bar>- int x\<bar> = x" by simp
  show ?thesis by (simp only: to_double_def Let_def a n if_True)
qed

lemma calculateRetryDelay_negative:
  assumes "is_double b" and "b < 0"
  shows "calculateRetryDelay n (Some (Num b))
           = (if - b * 2 ^ n < 2 ^ 1024 then Num (b * 2 ^ n) else MinusInfinity)"
proof -
  define x where "x = nat (- b)"
  have b: "b = - int x" and x: "0 < x" using assms(2) by (simp_all add: x_def)
  have d: "is_double (int x)" using assms(1) by (simp add: b is_double_def)
  have c: "(- b * 2 ^ n < 2 ^ 1024) = (x * 2 ^ n < 2 ^ 1024)"
  proof -
    have "- b * 2 ^ n = int (x * 2 ^ n)" by (simp add: b)
    then show ?thesis by (simp only: of_nat_less_numeral_power_cancel_iff)
  qed
  have p: "- int x * 2 ^ n = - int (x * 2 ^ n)" by simp
  have x2: "0 < x * 2 ^ n" using x by simp
  show ?thesis
  proof (cases "x * 2 ^ n < 2 ^ 1024")
    case True
    have n: "n < 1024"
    proof -
      have "(2::nat) ^ n \<le> x * 2 ^ n" using x by simp
      from this True have "(2::nat) ^ n < 2 ^ 1024" by (rule le_less_trans)
      then show ?thesis by (rule power_less_imp_less_exp [rotated]) simp
    qed
    from x d True have "is_double (int (x * 2 ^ n))" by (rule is_double_shift)
    then have "2 ^ (bit_length (x * 2 ^ n) - 53) dvd x * 2 ^ n"
      by (simp only: is_double_nat)
    then have r: "round_nat (x * 2 ^ n) = x * 2 ^ n" by (rule round_nat_exact)
    from True have nl: "\<not> 2 ^ 1024 \<le> x * 2 ^ n" by (simp only: not_le)
    have "to_double (- int (x * 2 ^ n)) = Num (- int (x * 2 ^ n))"
      using nl by (simp only: to_double_neg_nat [OF x2] r if_False)
    then have "times_number (Num (- int x)) (Math_pow 2 n) = Num (- int x * 2 ^ n)"
      using n by (simp only: Math_pow_2 if_True times_number.simps p)
    moreover have "- int x * 2 ^ n < 10000"
    proof -
      have "- int x * 2 ^ n < 0" using x by (simp add: mult_neg_pos)
      then show ?thesis by simp
    qed
    ultimately show ?thesis
      unfolding calculateRetryDelay_def c using True by (simp add: b)
  next
    case False
    then have le: "2 ^ 1024 \<le> x * 2 ^ n" by (simp only: not_less)
    have "times_number (Num (- int x)) (Math_pow 2 n) = MinusInfinity"
    proof (cases "n < 1024")
      case True
      have "to_double (- int (x * 2 ^ n)) = MinusInfinity"
        using round_nat_large [OF le] by (simp only: to_double_neg_nat [OF x2] if_True)
      then show ?thesis using True by (simp only: Math_pow_2 if_True times_number.simps p)
    next
      case False
      then show ?thesis using x by (simp add: Math_pow_2 signed_infinity_def)
    qed
    then show ?thesis
      unfolding calculateRetryDelay_def c using False by (simp add: b)
  qed
qed

lemma is_double_1000: "is_double 1000"
  using is_double_small [of 1000] by simp

subsection \<open>The two functions\<close>

text \<open>
  C6. For every diagnosis whose type is \<open>auth\<close> or \<open>config\<close>, and for every retry count
  and every maximum (given or defaulted), \<open>shouldRetry\<close> returns false.
\<close>

theorem shouldRetry_auth_config_false:
  "type errorInfo = Auth \<or> type errorInfo = Config \<Longrightarrow>
   shouldRetry errorInfo retryCount maxRetries = False"
  by (auto simp: shouldRetry_def noRetryTypes_def Let_def)

theorem shouldRetry_auth_config_false_witness:
  "shouldRetry \<lparr> type = Auth, severity = High, message = [], details = JNull,
      suggestions = [], canRetry = True, shouldEnableOfflineMode = None \<rparr> 0 (Some 5) = False"
  using shouldRetry_auth_config_false
    [of "\<lparr> type = Auth, severity = High, message = [], details = JNull,
      suggestions = [], canRetry = True, shouldEnableOfflineMode = None \<rparr>" 0 "Some 5"]
  by simp

text \<open>
  C7 as stated fails for the base delay 0: \<open>Math.pow(2, 1024)\<close> is \<open>Infinity\<close>, its
  product with 0 is \<open>NaN\<close>, and so is the result, where the formula gives 0.
\<close>

theorem calculateRetryDelay_overflow_counterexample:
  "is_double 0
   \<and> calculateRetryDelay 1024 (Some (Num 0)) = NaN
   \<and> min ((0::int) * 2 ^ 1024) 10000 = 0"
  using is_double_small [of 0] calculateRetryDelay_zero [of 1024] by simp

text \<open>
  C7, amended. For every natural retry count and every base delay that is an integer and
  a double, \<open>calculateRetryDelay\<close> is \<open>min (baseDelay * 2 ^ retryCount) 10000\<close> when the
  base delay is positive (a product that overflows gives \<open>Infinity\<close>, and the cap
  applies) or when nothing overflows (the retry count is below 1024 and the product below
  \<open>2^1024\<close> in magnitude); with the default base of 1000 ms the delays for 0, 3 and 10
  retries are 1000, 8000 and 10000.
\<close>

theorem calculateRetryDelay_capped_backoff:
  assumes "is_double baseDelay"
    and "0 < baseDelay \<or> (retryCount < 1024 \<and> \<bar>baseDelay\<bar> * 2 ^ retryCount < 2 ^ 1024)"
  shows "calculateRetryDelay retryCount (Some (Num baseDelay))
           = Num (min (baseDelay * 2 ^ retryCount) 10000)
         \<and> calculateRetryDelay retryCount None = Num (min (1000 * 2 ^ retryCount) 10000)
         \<and> calculateRetryDelay 0 None = Num 1000
         \<and> calculateRetryDelay 3 None = Num 8000
         \<and> calculateRetryDelay 10 None = Num 10000"
proof -
  have d: "calculateRetryDelay n None = Num (min (1000 * 2 ^ n) 10000)" for n
  proof -
    have "calculateRetryDelay n None = calculateRetryDelay n (Some (Num 1000))"
      by (simp add: calculateRetryDelay_def)
    then show ?thesis using calculateRetryDelay_positive [OF is_double_1000, of n] by simp
  qed
  have b: "calculateRetryDelay retryCount (Some (Num baseDelay))
             = Num (min (baseDelay * 2 ^ retryCount) 10000)"
  proof -
    consider "0 < baseDelay" | "baseDelay = 0" "retryCount < 1024"
      | "baseDelay < 0" "\<bar>baseDelay\<bar> * 2 ^ retryCount < 2 ^ 1024"
      using assms(2) by fastforce
    then show ?thesis
    proof cases
      case 1
      with assms(1) show ?thesis by (rule calculateRetryDelay_positive)
    next
      case 2
      then show ?thesis by (simp add: calculateRetryDelay_zero)
    next
      case 3
      then have l: "- baseDelay * 2 ^ retryCount < 2 ^ 1024" by (simp only: abs_of_neg)
      have "baseDelay * 2 ^ retryCount < 0" using 3(1) by (simp add: mult_neg_pos)
      then have m: "min (baseDelay * 2 ^ retryCount) 10000 = baseDelay * 2 ^ retryCount"
        by simp
      show ?thesis
        using l by (simp only: calculateRetryDelay_negative [OF assms(1) 3(1)] m if_True)
    qed
  qed
  show ?thesis
    using b d [of retryCount] d [of 0] d [of 3] d [of 10] by simp
qed

theorem calculateRetryDelay_capped_backoff_witness:
  "is_double 500
   \<and> ((0::int) < 500 \<or> ((2000::nat) < 1024 \<and> \<bar>500::int\<bar> * 2 ^ 2000 < 2 ^ 1024))
   \<and> calculateRetryDelay 2000 (Some (Num 500)) = Num 10000
   \<and> calculateRetryDelay 3 None = Num 8000"
proof -
  have d: "is_double 500" using is_double_small [of 500] by simp
  have p: "(0::int) < 500 \<or> ((2000::nat) < 1024 \<and> \<bar>500::int\<bar> * 2 ^ 2000 < 2 ^ 1024)"
    by simp
  have b: "calculateRetryDelay 2000 (Some (Num 500)) = Num (min (500 * 2 ^ 2000) 10000)"
    using calculateRetryDelay_capped_backoff [OF d p] by (rule conjunct1)
  have c: "calculateRetryDelay 3 None = Num 8000"
    using calculateRetryDelay_capped_backoff [OF d p] by blast
  have "(10000::int) \<le> 500 * 2 ^ 2000"
  proof -
    have "(10000::int) \<le> 500 * 2 ^ 5" by simp
    also have "(500::int) * 2 ^ 5 \<le> 500 * 2 ^ 2000"
      by (intro mult_left_mono power_increasing) simp_all
    finally show ?thesis .
  qed
  then have m: "min ((500::int) * 2 ^ 2000) 10000 = 10000"
    by (simp only: min_def split: if_splits) simp
  from d p b c m show ?thesis by simp
qed

section \<open>Properties of the diagnostic report\<close>

text \<open>
  C1 as stated fails: when only the basic-connectivity probe fails, the status is not
  \<open>degraded\<close>. The guard \<open>basicConnectivity.success && cloudflareApi.success\<close> sends every
  run with a failed connectivity probe to \<open>failed\<close>.
\<close>

theorem generateDiagnosticReport_basic_failure_counterexample:
  "status (overall (generateDiagnosticReport None probe_failed probe_ok probe_ok probe_ok))
     = Failed
   \<and> status (overall (generateDiagnosticReport None probe_failed probe_ok probe_ok probe_ok))
     \<noteq> Degraded"
  by (simp add: generateDiagnosticReport_def probe_ok_def probe_failed_def Let_def)

text \<open>
  C1, amended. For every run in which the basic-connectivity probe failed and the DNS, API
  and CORS probes succeeded, the report has \<open>overall.status = failed\<close>, and
  \<open>overall.issues\<close> is the single-entry list holding the basic-connectivity failure entry.
\<close>

theorem generateDiagnosticReport_basic_failure:
  assumes "\<not> success basic" and "success dns" and "success api" and "success cors"
  shows "status (overall (generateDiagnosticReport apiToken basic dns api cors)) = Failed
         \<and> issues (overall (generateDiagnosticReport apiToken basic dns api cors))
             = [ISSUE_BASIC]"
  using assms by (simp add: generateDiagnosticReport_def Let_def)

theorem generateDiagnosticReport_basic_failure_witness:
  "\<not> success probe_failed \<and> success probe_ok
   \<and> status (overall (generateDiagnosticReport (Some (js ''token'')) probe_failed probe_ok
         probe_ok probe_ok)) = Failed
   \<and> issues (overall (generateDiagnosticReport (Some (js ''token'')) probe_failed probe_ok
         probe_ok probe_ok)) = [ISSUE_BASIC]"
proof -
  have f: "\<not> success probe_failed" by (simp add: probe_failed_def)
  have k: "success probe_ok" by (simp add: probe_ok_def)
  from generateDiagnosticReport_basic_failure [OF f k k k, of "Some (js ''token'')"] f k
  show ?thesis by simp
qed

section \<open>Properties of analyzeError\<close>

lemma RegExp_test_nonglobal:
  "\<not> global r \<Longrightarrow> RegExp_test r s = (search (ignoreCase r) (alternatives r) s \<noteq> None, r)"
  by (auto simp: RegExp_test_def Let_def split: option.splits)

lemma lit_js: "lit s = map Chr (js s)"
  by (simp add: lit_def js_def)

lemma match_here_literal:
  "starts_with_ci p s \<Longrightarrow> match_here True (map Chr p) (s @ t) = Some (length p)"
  by (induction p s rule: starts_with_ci.induct) (simp_all add: chr_eq_def)

lemma match_alts_member:
  "a \<in> set alts \<Longrightarrow> match_here ic a s \<noteq> None \<Longrightarrow> match_alts ic alts s \<noteq> None"
  by (induction alts) (auto split: option.splits)

lemma search_hit:
  "contains_ci p s \<Longrightarrow> map Chr p \<in> set alts \<Longrightarrow> search True alts (s @ t) \<noteq> None"
proof (induction s)
  case Nil
  then have "match_here True (map Chr p) ([] @ t) \<noteq> None"
    using match_here_literal [of p "[]" t] by simp
  with Nil.prems(2) have "match_alts True alts t \<noteq> None"
    using match_alts_member by fastforce
  then show ?case by (cases t) (auto split: option.splits)
next
  case (Cons c cs)
  show ?case
  proof (cases "starts_with_ci p (c # cs)")
    case True
    then have "match_here True (map Chr p) ((c # cs) @ t) \<noteq> None"
      using match_here_literal [of p "c # cs" t] by simp
    with Cons.prems(2) have "match_alts True alts ((c # cs) @ t) \<noteq> None"
      using match_alts_member by blast
    then show ?thesis by (auto split: option.splits)
  next
    case False
    with Cons.prems have "contains_ci p cs" by simp
    with Cons.IH Cons.prems(2) have "search True alts (cs @ t) \<noteq> None" by simp
    then show ?thesis by (auto split: option.splits)
  qed
qed

lemma nonglobal_patterns:
  "\<not> global (NETWORK_FAILED (with_lastIndex f ERROR_PATTERNS))"
  "\<not> global (NETWORK_TIMEOUT (with_lastIndex f ERROR_PATTERNS))"
  "\<not> global (NETWORK_OFFLINE (with_lastIndex f ERROR_PATTERNS))"
  "\<not> global (DNS_FAILED (with_lastIndex f ERROR_PATTERNS))"
  "\<not> global (CORS_ERROR (with_lastIndex f ERROR_PATTERNS))"
  "\<not> global (API_UNAUTHORIZED (with_lastIndex f ERROR_PATTERNS))"
  "\<not> global (API_FORBIDDEN (with_lastIndex f ERROR_PATTERNS))"
  "\<not> global (API_NOT_FOUND (with_lastIndex f ERROR_PATTERNS))"
  "\<not> global (API_RATE_LIMIT (with_lastIndex f ERROR_PATTERNS))"
  "\<not> global (API_SERVER_ERROR (with_lastIndex f ERROR_PATTERNS))"
  "\<not> global (CONFIG_MISSING (with_lastIndex f ERROR_PATTERNS))"
  "\<not> global (CONFIG_INVALID (with_lastIndex f ERROR_PATTERNS))"
  by (simp_all add: with_lastIndex_def ERROR_PATTERNS_def regexp_i_def)

text \<open>The classification as a function of what the twelve searches answer.\<close>

lemma analyzeError_nonglobal:
  assumes "\<not> global (NETWORK_FAILED P)" "\<not> global (NETWORK_TIMEOUT P)"
    "\<not> global (NETWORK_OFFLINE P)" "\<not> global (DNS_FAILED P)" "\<not> global (CORS_ERROR P)"
    "\<not> global (API_UNAUTHORIZED P)" "\<not> global (API_FORBIDDEN P)" "\<not> global (API_NOT_FOUND P)"
    "\<not> global (API_RATE_LIMIT P)" "\<not> global (API_SERVER_ERROR P)" "\<not> global (CONFIG_MISSING P)"
    "\<not> global (CONFIG_INVALID P)"
  shows "snd (analyzeError P error context) = P"
  using assms by (simp add: analyzeError_def RegExp_test_nonglobal Let_def split: sum.splits)


lemma with_lastIndex_fields:
  "alternatives (NETWORK_FAILED (with_lastIndex f P)) = alternatives (NETWORK_FAILED P)"
  "alternatives (NETWORK_TIMEOUT (with_lastIndex f P)) = alternatives (NETWORK_TIMEOUT P)"
  "alternatives (NETWORK_OFFLINE (with_lastIndex f P)) = alternatives (NETWORK_OFFLINE P)"
  "alternatives (DNS_FAILED (with_lastIndex f P)) = alternatives (DNS_FAILED P)"
  "alternatives (CORS_ERROR (with_lastIndex f P)) = alternatives (CORS_ERROR P)"
  "alternatives (API_UNAUTHORIZED (with_lastIndex f P)) = alternatives (API_UNAUTHORIZED P)"
  "alternatives (API_FORBIDDEN (with_lastIndex f P)) = alternatives (API_FORBIDDEN P)"
  "alternatives (API_NOT_FOUND (with_lastIndex f P)) = alternatives (API_NOT_FOUND P)"
  "alternatives (API_RATE_LIMIT (with_lastIndex f P)) = alternatives (API_RATE_LIMIT P)"
  "alternatives (API_SERVER_ERROR (with_lastIndex f P)) = alternatives (API_SERVER_ERROR P)"
  "alternatives (CONFIG_MISSING (with_lastIndex f P)) = alternatives (CONFIG_MISSING P)"
  "alternatives (CONFIG_INVALID (with_lastIndex f P)) = alternatives (CONFIG_INVALID P)"
  "ignoreCase (NETWORK_FAILED (with_lastIndex f P)) = ignoreCase (NETWORK_FAILED P)"
  "ignoreCase (NETWORK_TIMEOUT (with_lastIndex f P)) = ignoreCase (NETWORK_TIMEOUT P)"
  "ignoreCase (NETWORK_OFFLINE (with_lastIndex f P)) = ignoreCase (NETWORK_OFFLINE P)"
  "ignoreCase (DNS_FAILED (with_lastIndex f P)) = ignoreCase (DNS_FAILED P)"
  "ignoreCase (CORS_ERROR (with_lastIndex f P)) = ignoreCase (CORS_ERROR P)"
  "ignoreCase (API_UNAUTHORIZED (with_lastIndex f P)) = ignoreCase (API_UNAUTHORIZED P)"
  "ignoreCase (API_FORBIDDEN (with_lastIndex f P)) = ignoreCase (API_FORBIDDEN P)"
  "ignoreCase (API_NOT_FOUND (with_lastIndex f P)) = ignoreCase (API_NOT_FOUND P)"
  "ignoreCase (API_RATE_LIMIT (with_lastIndex f P)) = ignoreCase (API_RATE_LIMIT P)"
  "ignoreCase (API_SERVER_ERROR (with_lastIndex f P)) = ignoreCase (API_SERVER_ERROR P)"
  "ignoreCase (CONFIG_MISSING (with_lastIndex f P)) = ignoreCase (CONFIG_MISSING P)"
  "ignoreCase (CONFIG_INVALID (with_lastIndex f P)) = ignoreCase (CONFIG_INVALID P)"
  by (simp_all add: with_lastIndex_def)

lemma with_lastIndex_zero: "with_lastIndex (\<lambda>k. 0) ERROR_PATTERNS = ERROR_PATTERNS"
  by (simp add: with_lastIndex_def ERROR_PATTERNS_def regexp_i_def)

lemma analyzeError_lastIndex_fst:
  "fst (analyzeError (with_lastIndex f ERROR_PATTERNS) error context)
     = fst (analyzeError (with_lastIndex g ERROR_PATTERNS) error context)"
  by (simp add: analyzeError_def RegExp_test_nonglobal nonglobal_patterns Let_def
      with_lastIndex_fields split: sum.splits)

text \<open>
  C9. \<open>analyzeError\<close> is deterministic and free of side effects. The only state it
  touches is the pattern table of the handler, and none of the patterns has the \<open>g\<close>
  flag: a call leaves the table as it found it, a second call with the same arguments
  returns the same \<open>ErrorInfo\<close>, and the result does not depend on the \<open>lastIndex\<close>
  values the table holds.
\<close>

theorem analyzeError_deterministic_pure:
  "snd (analyzeError ERROR_PATTERNS error context) = ERROR_PATTERNS
   \<and> fst (analyzeError (snd (analyzeError ERROR_PATTERNS error context)) error context)
       = fst (analyzeError ERROR_PATTERNS error context)
   \<and> analyzeError (with_lastIndex f ERROR_PATTERNS) error context
       = (fst (analyzeError ERROR_PATTERNS error context), with_lastIndex f ERROR_PATTERNS)"
proof -
  have s: "snd (analyzeError (with_lastIndex g ERROR_PATTERNS) error context) = with_lastIndex g ERROR_PATTERNS"
    for g
    by (rule analyzeError_nonglobal) (rule nonglobal_patterns)+
  have s0: "snd (analyzeError ERROR_PATTERNS error context) = ERROR_PATTERNS"
    using s [of "\<lambda>k. 0"] by (simp add: with_lastIndex_zero)
  have f: "fst (analyzeError (with_lastIndex f ERROR_PATTERNS) error context)
             = fst (analyzeError ERROR_PATTERNS error context)"
    using analyzeError_lastIndex_fst [of f error "context" "\<lambda>k. 0"] by (simp add: with_lastIndex_zero)
  show ?thesis
    using s0 s [of f] f by (simp add: prod_eq_iff)
qed

lemma errorString_of_message:
  assumes "errorString_of error context = Inr errorString"
  shows "\<exists>rest. errorString = to_string (extractErrorMessage error) @ rest"
  using assms
  by (auto simp: errorString_of_def ToString_def Let_def split: if_splits sum.splits)

text \<open>
  C5 as stated fails: the message of \<open>bad_stack_error\<close> is \<open>Failed to fetch\<close>, but the
  template literal cannot convert the stack, and \<open>analyzeError\<close> throws a \<open>TypeError\<close>
  instead of returning a diagnosis.
\<close>

theorem analyzeError_failed_to_fetch_counterexample:
  "contains_ci (js ''Failed to fetch'') (to_string (extractErrorMessage (Some bad_stack_error)))
   \<and> analyzeError ERROR_PATTERNS (Some bad_stack_error) None = (Inl TypeError, ERROR_PATTERNS)"
proof -
  have m: "extractErrorMessage (Some bad_stack_error) = JStr (js ''Failed to fetch'')"
    by (simp add: extractErrorMessage_def bad_stack_error_def js_def)
  have c: "contains_ci (js ''Failed to fetch'') (js ''Failed to fetch'')"
    by (simp add: js_def)
  have e: "errorString_of (Some bad_stack_error) None = Inl TypeError"
    by (simp add: errorString_of_def m ToString_def Let_def) (simp add: bad_stack_error_def js_def)
  show ?thesis
    using c by (simp add: m analyzeError_def e)
qed

text \<open>
  C5, amended. For every error whose extracted message contains \<open>Failed to fetch\<close>
  (case-insensitively) and for which the template literal evaluates (the conversions of
  the message and of the stack to strings do not throw), \<open>analyzeError\<close> returns the
  network-failed diagnosis: type \<open>network\<close>, \<open>canRetry = true\<close>,
  \<open>shouldEnableOfflineMode = true\<close>, whatever else the message, the stack and the context
  contain (the network-failed pattern is tested first).
\<close>

theorem analyzeError_failed_to_fetch:
  assumes "errorString_of error context = Inr errorString"
    and "contains_ci (js ''Failed to fetch'') (to_string (extractErrorMessage error))"
  shows "\<exists>info. fst (analyzeError ERROR_PATTERNS error context) = Inr info
           \<and> type info = Network
           \<and> canRetry info = True
           \<and> shouldEnableOfflineMode info = Some True
           \<and> info = createNetworkFailedError (extractErrorMessage error)"
proof -
  from assms(1) obtain rest
    where r: "errorString = to_string (extractErrorMessage error) @ rest"
    using errorString_of_message by blast
  have "search True (alternatives (NETWORK_FAILED ERROR_PATTERNS)) errorString \<noteq> None"
    unfolding r
    by (rule search_hit [OF assms(2)]) (simp add: ERROR_PATTERNS_def regexp_i_def lit_js)
  then have "fst (RegExp_test (NETWORK_FAILED ERROR_PATTERNS) errorString)"
    by (simp add: RegExp_test_nonglobal ERROR_PATTERNS_def regexp_i_def)
  then have "fst (analyzeError ERROR_PATTERNS error context)
               = Inr (createNetworkFailedError (extractErrorMessage error))"
    by (simp add: analyzeError_def assms(1) Let_def split_beta)
  then show ?thesis by (simp add: createNetworkFailedError_def)
qed

theorem analyzeError_failed_to_fetch_witness:
  "errorString_of
     (Some (JObj [(js ''message'', JStr (js ''TypeError: failed to fetch (401)''))]))
     (Some (js ''timeout'')) = Inr (js ''TypeError: failed to fetch (401)  timeout'')
   \<and> contains_ci (js ''Failed to fetch'')
     (to_string (extractErrorMessage
        (Some (JObj [(js ''message'', JStr (js ''TypeError: failed to fetch (401)''))]))))
   \<and> (\<exists>info. fst (analyzeError ERROR_PATTERNS
        (Some (JObj [(js ''message'', JStr (js ''TypeError: failed to fetch (401)''))]))
        (Some (js ''timeout''))) = Inr info \<and> type info = Network)"
proof -
  have m: "extractErrorMessage
        (Some (JObj [(js ''message'', JStr (js ''TypeError: failed to fetch (401)''))]))
      = JStr (js ''TypeError: failed to fetch (401)'')"
    by (simp add: extractErrorMessage_def js_def)
  have e: "errorString_of
     (Some (JObj [(js ''message'', JStr (js ''TypeError: failed to fetch (401)''))]))
     (Some (js ''timeout'')) = Inr (js ''TypeError: failed to fetch (401)  timeout'')"
    by (simp add: errorString_of_def m ToString_def Let_def) (simp add: js_def)
  have h: "contains_ci (js ''Failed to fetch'')
     (to_string (extractErrorMessage
        (Some (JObj [(js ''message'', JStr (js ''TypeError: failed to fetch (401)''))]))))"
    by (simp add: m) (simp add: js_def canon_def)
  have t: "\<exists>info. fst (analyzeError ERROR_PATTERNS
        (Some (JObj [(js ''message'', JStr (js ''TypeError: failed to fetch (401)''))]))
        (Some (js ''timeout''))) = Inr info \<and> type info = Network"
    using analyzeError_failed_to_fetch [OF e h] by blast
  from e h t show ?thesis by blast
qed

section \<open>Properties of the configuration file validation\<close>

lemma get_prop_has_prop: "get_prop (JObj kvs) k = Some x \<Longrightarrow> has_prop (JObj kvs) k"
  by (force dest!: map_of_SomeD)

lemma foldl_check_field_ok:
  "\<forall>f \<in> set fs. has_prop c f \<and> is_string (get_prop c f) \<Longrightarrow> foldl (check_field c) errs fs = errs"
  by (induction fs arbitrary: errs) (simp_all add: check_field_def)

lemma get_prop_version_object:
  "get_prop data (js ''version'') = Some x \<Longrightarrow> \<exists>kvs. data = JObj kvs"
  by (cases data) (simp_all add: js_def)

lemma validate_accepts:
  assumes ver: "get_prop data (js ''version'') = Some (JStr v)" "v \<noteq> []"
    and ts: "get_prop data (js ''timestamp'') = Some (JStr t)" "t \<noteq> []" "dateParses t"
    and cfg: "get_prop data (js ''config'') = Some (JObj cfg)"
    and fields: "\<forall>f \<in> set requiredFields. \<exists>s. get_prop (JObj cfg) f = Some (JStr s)"
  shows "isValid (validateConfigFileDetailed dateParses data)
         \<and> errors (validateConfigFileDetailed dateParses data) = []"
proof -
  from ver(1) obtain kvs where d: "data = JObj kvs"
    using get_prop_version_object by blast
  have "\<forall>f \<in> set requiredFields. has_prop (JObj cfg) f \<and> is_string (get_prop (JObj cfg) f)"
    using fields get_prop_has_prop by fastforce
  then have e3: "foldl (check_field (JObj cfg)) [] requiredFields = []"
    by (rule foldl_check_field_ok)
  show ?thesis
    using ver ts cfg e3 unfolding validateConfigFileDetailed_def d
    by (simp add: Let_def)
qed

text \<open>
  C10. \<open>validateConfigFileDetailed\<close> accepts every configuration file whose version is a
  non-empty string, whose timestamp is a string that parses, and whose \<open>config\<close> object
  holds all seven required fields as strings, whatever the strings are (the empty string
  too): no check on emptiness or on the shape of a token, account id or region adds an
  error.
\<close>

theorem validateConfigFileDetailed_accepts:
  assumes "get_prop data (js ''version'') = Some (JStr v)" and "v \<noteq> []"
    and "get_prop data (js ''timestamp'') = Some (JStr t)" and "t \<noteq> []" and "dateParses t"
    and "get_prop data (js ''config'') = Some (JObj cfg)"
    and "\<forall>f \<in> set requiredFields. \<exists>s. get_prop (JObj cfg) f = Some (JStr s)"
  shows "isValid (validateConfigFileDetailed dateParses data)
         \<and> errors (validateConfigFileDetailed dateParses data) = []"
  using assms by (rule validate_accepts)

theorem validateConfigFileDetailed_accepts_witness:
  "sample_date (js ''2024-05-01T08:30:00.000Z'')
   \<and> isValid (validateConfigFileDetailed sample_date empty_config_file)
   \<and> errors (validateConfigFileDetailed sample_date empty_config_file) = []"
proof -
  let ?cfg = "[(js ''cloudflareApiToken'', JStr []), (js ''cloudflareAccountId'', JStr []),
     (js ''cloudflareWorkerId'', JStr []), (js ''cosSecretId'', JStr []),
     (js ''cosSecretKey'', JStr []), (js ''cosBucket'', JStr []), (js ''cosRegion'', JStr [])]"
  have d: "sample_date (js ''2024-05-01T08:30:00.000Z'')"
    by (simp add: sample_date_def)
  have v: "get_prop empty_config_file (js ''version'') = Some (JStr (js ''1.0.0''))"
    by (simp add: empty_config_file_def js_def)
  have n: "js ''1.0.0'' \<noteq> []" "js ''2024-05-01T08:30:00.000Z'' \<noteq> []"
    by (simp_all add: js_def)
  have t: "get_prop empty_config_file (js ''timestamp'')
             = Some (JStr (js ''2024-05-01T08:30:00.000Z''))"
    by (simp add: empty_config_file_def js_def)
  have c: "get_prop empty_config_file (js ''config'') = Some (JObj ?cfg)"
    by (simp add: empty_config_file_def empty_config_def config_value_def js_def)
  have f: "\<forall>f \<in> set requiredFields. \<exists>s. get_prop (JObj ?cfg) f = Some (JStr s)"
    by (simp add: requiredFields_def js_def)
  from validateConfigFileDetailed_accepts [where dateParses = sample_date, OF v n(1) t n(2) d c f] d
  show ?thesis by simp
qed

section \<open>JSON.parse reads back what JSON.stringify writes\<close>

lemma emit_Nil [simp]: "emit [] r = r"
  by (cases r) (simp_all add: emit_def)

lemma emit_emit [simp]: "emit a (emit b r) = emit (a @ b) r"
  by (cases r) (simp_all add: emit_def)

lemma emit_None [simp]: "emit a None = None"
  by (simp add: emit_def)

lemma emit_Some [simp]: "emit a (Some b) = Some (a @ b)"
  by (simp add: emit_def)

lemma lex_ws: "list_all json_ws w \<Longrightarrow> lex Idle (w @ r) = lex Idle r"
  by (induction w) (simp_all add: idle_step_def)

lemma hex_roundtrip: "n < 16 \<Longrightarrow> hex_value (hex_digit n) = Some n"
  by (auto simp: hex_value_def hex_digit_def is_digit_def)

lemma hex4_value:
  assumes "c < 65536"
  shows "16 * (16 * (16 * (c div 4096 mod 16) + c div 256 mod 16) + c div 16 mod 16) + c mod 16
     = (c::nat)"
proof -
  define x1 where "x1 = c div 16"
  define x2 where "x2 = x1 div 16"
  define x3 where "x3 = x2 div 16"
  have a: "c div 256 = x2" "c div 4096 = x3"
    by (simp_all add: x1_def x2_def x3_def div_mult2_eq)
  have "x3 < 16" using assms unfolding a(2) [symmetric] by simp
  then have m: "x3 mod 16 = x3" by simp
  have "16 * (16 * (16 * x3 + x2 mod 16) + x1 mod 16) + c mod 16
          = 16 * (16 * x2 + x1 mod 16) + c mod 16"
    by (simp add: x3_def)
  also have "\<dots> = 16 * x1 + c mod 16"
    by (simp add: x2_def)
  also have "\<dots> = c"
    by (simp add: x1_def)
  finally show ?thesis
    unfolding a m x1_def [symmetric] .
qed

lemma lex_uni:
  assumes "d3 < 16" "d2 < 16" "d1 < 16" "d0 < 16"
  shows "lex (InStr acc)
           (0x5C # 0x75 # hex_digit d3 # hex_digit d2 # hex_digit d1 # hex_digit d0 # r)
         = lex (InStr (acc @ [16 * (16 * (16 * d3 + d2) + d1) + d0])) r"
proof -
  have u: "unescape 0x75 = None" by (simp add: unescape_def)
  show ?thesis
    by (simp add: u hex_roundtrip assms)
qed

lemma lex_uescape:
  assumes "c < 65536"
  shows "lex (InStr acc) (uescape c @ r) = lex (InStr (acc @ [c])) r"
  unfolding uescape_def
  using lex_uni [of "c div 4096 mod 16" "c div 256 mod 16" "c div 16 mod 16" "c mod 16" acc r]
  by (simp only: hex4_value [OF assms] append_Cons append_Nil mod_less_divisor zero_less_numeral
      simp_thms)

lemma lex_unit: "lex (InStr acc) (escape_unit c @ r) = lex (InStr (acc @ [c])) r"
proof -
  consider (short) "c \<in> {0x08, 0x09, 0x0A, 0x0C, 0x0D, 0x22, 0x5C}"
    | (esc) "c \<notin> {0x08, 0x09, 0x0A, 0x0C, 0x0D, 0x22, 0x5C}" "c < 0x20 \<or> is_high c \<or> is_low c"
    | (plain) "c \<notin> {0x08, 0x09, 0x0A, 0x0C, 0x0D, 0x22, 0x5C}" "\<not> (c < 0x20 \<or> is_high c \<or> is_low c)"
    by blast
  then show ?thesis
  proof cases
    case short
    then show ?thesis by (auto simp: escape_unit_def unescape_def)
  next
    case esc
    then have "c < 65536" by (auto simp: is_high_def is_low_def)
    then have "lex (InStr acc) (uescape c @ r) = lex (InStr (acc @ [c])) r"
      by (rule lex_uescape)
    with esc show ?thesis by (simp add: escape_unit_def)
  next
    case plain
    then show ?thesis by (simp add: escape_unit_def)
  qed
qed

lemma lex_quote_body:
  "lex (InStr acc) (quote_body s @ 0x22 # r) = emit [TStr (acc @ s)] (lex Idle r)"
proof (induction s arbitrary: acc rule: quote_body.induct)
  case 1
  then show ?case by simp
next
  case (2 c)
  have "lex (InStr acc) (escape_unit c @ 0x22 # r) = lex (InStr (acc @ [c])) (0x22 # r)"
    by (rule lex_unit)
  then show ?case by simp
next
  case (3 c d ds)
  show ?case
  proof (cases "is_high c \<and> is_low d")
    case True
    then show ?thesis using 3(1) [of "acc @ [c, d]"]
      by (simp add: is_high_def is_low_def)
  next
    case False
    then have q: "quote_body (c # d # ds) = escape_unit c @ quote_body (d # ds)"
      by auto
    show ?thesis
      unfolding q append_assoc lex_unit using 3(2) [OF False, of "acc @ [c]"] by simp
  qed
qed

lemma lex_quote: "lex Idle (quote s @ r) = emit [TStr s] (lex Idle r)"
  using lex_quote_body [of "[]" s r]
  by (simp add: quote_def idle_step_def json_ws_def is_digit_def)


lemma digits_value_snoc: "digits_value (ds @ [c]) = 10 * digits_value ds + (c - 48)"
  by (simp add: digits_value_def)

lemma show_nat_unfold:
  "show_nat n = (if n < 10 then [48 + n] else show_nat (n div 10) @ [48 + n mod 10])"
  by (rule show_nat.simps)

lemma show_nat_digits: "list_all is_digit (show_nat n)"
proof (induction n rule: show_nat.induct)
  case (1 n)
  show ?case
  proof (cases "n < 10")
    case True
    then show ?thesis by (subst show_nat_unfold) (simp add: is_digit_def)
  next
    case False
    have "n mod 10 < 10" by simp
    then have "is_digit (48 + n mod 10)" unfolding is_digit_def by linarith
    with False 1 show ?thesis by (subst show_nat_unfold) simp
  qed
qed

lemma show_nat_nonempty: "show_nat n \<noteq> []"
  by (subst show_nat_unfold) simp

lemma show_nat_value: "digits_value (show_nat n) = n"
proof (induction n rule: show_nat.induct)
  case (1 n)
  show ?case
  proof (cases "n < 10")
    case True
    then show ?thesis by (subst show_nat_unfold) (simp add: digits_value_def)
  next
    case False
    with 1 have "digits_value (show_nat (n div 10)) = n div 10" by simp
    with False show ?thesis
      by (subst show_nat_unfold) (simp add: digits_value_snoc)
  qed
qed

lemma show_nat_hd: "0 < n \<Longrightarrow> hd (show_nat n) \<noteq> 48"
proof (induction n rule: show_nat.induct)
  case (1 n)
  show ?case
  proof (cases "n < 10")
    case True
    with 1(2) show ?thesis by (subst show_nat_unfold) simp
  next
    case False
    then have "0 < n div 10" by simp
    with 1(1) False have "hd (show_nat (n div 10)) \<noteq> 48" by simp
    with False show ?thesis
      by (subst show_nat_unfold) (simp add: show_nat_nonempty)
  qed
qed

lemma show_nat_zero: "show_nat 0 = [48]"
  by (subst show_nat_unfold) simp

lemma number_tok_show_nat:
  "number_tok neg (show_nat n) = Some (TNum (if neg then - int n else int n))"
proof (cases "n = 0")
  case True
  then show ?thesis by (simp add: number_tok_def show_nat_zero digits_value_def)
next
  case False
  then have "hd (show_nat n) \<noteq> 48" using show_nat_hd by simp
  then show ?thesis by (simp add: number_tok_def show_nat_nonempty show_nat_value)
qed

lemma lex_digits:
  "list_all is_digit ds \<Longrightarrow> lex (InNum neg acc) (ds @ r) = lex (InNum neg (acc @ ds)) r"
  by (induction ds arbitrary: acc) simp_all

lemma lex_number_end:
  "safe r \<Longrightarrow> lex (InNum neg ds) r
     = (case number_tok neg ds of None \<Rightarrow> None | Some t \<Rightarrow> emit [t] (lex Idle r))"
  by (cases r) (auto simp: safe_def split: option.splits)

lemma lex_show_nat:
  assumes "safe r"
  shows "lex (InNum neg []) (show_nat n @ r)
           = emit [TNum (if neg then - int n else int n)] (lex Idle r)"
  using lex_digits [OF show_nat_digits, of neg "[]" n r] lex_number_end [OF assms, of neg "show_nat n"]
  by (simp add: number_tok_show_nat)

lemma lex_show_int:
  assumes "safe r"
  shows "lex Idle (show_int i @ r) = emit [TNum i] (lex Idle r)"
proof (cases "i < 0")
  case True
  then show ?thesis
    using lex_show_nat [OF assms, of True "nat (- i)"]
    by (simp add: show_int_def idle_step_def json_ws_def is_digit_def)
next
  case False
  obtain c cs where s: "show_nat (nat i) = c # cs"
    using show_nat_nonempty [of "nat i"] by (cases "show_nat (nat i)") auto
  have d: "is_digit c" "list_all is_digit cs"
    using show_nat_digits [of "nat i"] by (simp_all add: s)
  have i: "idle_step c = Some ([], InNum False [c])"
    using d(1) by (auto simp: idle_step_def json_ws_def is_digit_def)
  have "lex Idle (show_nat (nat i) @ r) = lex (InNum False [c]) (cs @ r)"
    by (simp add: s i)
  also have "\<dots> = lex (InNum False (show_nat (nat i))) r"
    using lex_digits [OF d(2), of False "[c]" r] by (simp add: s)
  also have "\<dots> = emit [TNum i] (lex Idle r)"
    using lex_number_end [OF assms, of False "show_nat (nat i)"] False
    by (simp add: number_tok_show_nat)
  finally show ?thesis using False by (simp add: show_int_def)
qed


lemma lexes_toD: "lexes_to p t \<Longrightarrow> safe r \<Longrightarrow> lex Idle (p @ r) = emit t (lex Idle r)"
  by (simp add: lexes_to_def)

lemma safe_Cons: "\<not> is_digit c \<Longrightarrow> safe (c # r)"
  by (simp add: safe_def)

lemma lex_join:
  assumes sep_lex: "\<And>r. lex Idle (sep @ r) = emit [TComma] (lex Idle r)"
    and sep_safe: "\<And>r. safe (sep @ r)"
  shows "list_all2 lexes_to parts ts \<Longrightarrow> safe r \<Longrightarrow>
         lex Idle (join sep parts @ r) = emit (sepc ts) (lex Idle r)"
proof (induction parts arbitrary: ts rule: induct_list012)
  case 1
  then show ?case by simp
next
  case (2 x)
  then obtain t where "ts = [t]" "lexes_to x t"
    by (auto simp: list_all2_Cons1)
  with 2 show ?case by (simp add: lexes_toD)
next
  case (3 x y ys)
  from 3(3) obtain t ts' where ts: "ts = t # ts'" "lexes_to x t" "list_all2 lexes_to (y # ys) ts'"
    by (auto simp: list_all2_Cons1)
  from ts(3) obtain t' ts'' where ts': "ts' = t' # ts''"
    by (auto simp: list_all2_Cons1)
  have "lex Idle (join sep (x # y # ys) @ r) = lex Idle (x @ (sep @ (join sep (y # ys) @ r)))"
    by simp
  also have "\<dots> = emit t (lex Idle (sep @ (join sep (y # ys) @ r)))"
    by (rule lexes_toD [OF ts(2) sep_safe])
  also have "\<dots> = emit t (emit [TComma] (lex Idle (join sep (y # ys) @ r)))"
    by (simp only: sep_lex)
  also have "\<dots> = emit t (emit [TComma] (emit (sepc ts') (lex Idle r)))"
    using 3(2) [OF ts(3) 3(4)] by simp
  finally show ?case by (simp add: ts ts')
qed

lemma lex_wrap:
  assumes opn: "\<And>r. lex Idle (opn # r) = emit [TO] (lex Idle r)"
    and cls: "\<And>r. lex Idle (cls # r) = emit [TC] (lex Idle r)"
    and cls_safe: "\<not> is_digit cls"
    and ws: "list_all json_ws gap" "list_all json_ws ind"
    and parts: "list_all2 lexes_to parts ts"
    and r: "safe r"
  shows "lex Idle (wrap opn cls gap ind parts @ r) = emit (TO # sepc ts @ [TC]) (lex Idle r)"
proof -
  have nl: "json_ws 0x0A" "\<not> is_digit 0x0A" "\<not> is_digit 0x2C"
    by (simp_all add: json_ws_def is_digit_def)
  consider (empty) "parts = []" | (compact) "parts \<noteq> []" "gap = []"
    | (pretty) "parts \<noteq> []" "gap \<noteq> []"
    by blast
  then show ?thesis
  proof cases
    case empty
    with parts have "ts = []" by simp
    with empty show ?thesis by (simp add: wrap_def opn cls del: lex.simps)
  next
    case compact
    have j: "lex Idle (join (js '','') parts @ (cls # r))
               = emit (sepc ts) (lex Idle (cls # r))"
    proof (rule lex_join [OF _ _ parts])
      show "lex Idle (js '','' @ r') = emit [TComma] (lex Idle r')" for r'
        by (simp add: js_def idle_step_def json_ws_def)
      show "safe (js '','' @ r')" for r'
        by (simp add: js_def safe_def is_digit_def)
      show "safe (cls # r)" by (rule safe_Cons [OF cls_safe])
    qed
    from compact show ?thesis
      by (simp add: wrap_def opn j cls del: lex.simps)
  next
    case pretty
    let ?sep = "0x2C # 0x0A # (ind @ gap)"
    let ?tail = "0x0A # ind @ cls # r"
    have w: "list_all json_ws (0x0A # (ind @ gap))" "list_all json_ws (0x0A # ind)"
      using ws nl(1) by simp_all
    have j: "lex Idle (join ?sep parts @ ?tail) = emit (sepc ts) (lex Idle ?tail)"
    proof (rule lex_join [OF _ _ parts])
      show "lex Idle (?sep @ r') = emit [TComma] (lex Idle r')" for r'
        using lex_ws [OF w(1), of r'] by (simp add: idle_step_def json_ws_def)
      show "safe (?sep @ r')" for r'
        by (simp add: safe_def nl)
      show "safe ?tail" by (simp add: safe_def nl)
    qed
    have t: "lex Idle ?tail = emit [TC] (lex Idle r)"
      using lex_ws [OF w(2), of "cls # r"] by (simp add: cls del: lex.simps)
    have "lex Idle (wrap opn cls gap ind parts @ r)
            = emit [TO] (lex Idle ((0x0A # (ind @ gap)) @ (join ?sep parts @ ?tail)))"
      using pretty by (simp add: wrap_def opn del: lex.simps)
    also have "\<dots> = emit [TO] (lex Idle (join ?sep parts @ ?tail))"
      by (simp only: lex_ws [OF w(1)])
    finally show ?thesis by (simp add: j t del: lex.simps)
  qed
qed

lemma lex_ser:
  assumes "list_all json_ws gap"
  shows "list_all json_ws ind \<Longrightarrow> lexes_to (ser gap ind v) (toks v)"
proof (induction v arbitrary: ind)
  case JNull
  show ?case by (simp add: lexes_to_def js_def idle_step_def json_ws_def is_digit_def)
next
  case (JBool b)
  show ?case by (simp add: lexes_to_def js_def idle_step_def json_ws_def is_digit_def)
next
  case (JNum n)
  show ?case by (simp add: lexes_to_def lex_show_int)
next
  case (JStr s)
  show ?case by (simp add: lexes_to_def lex_quote)
next
  case (JArr xs)
  have w: "list_all json_ws (ind @ gap)" using JArr.prems assms by simp
  have p: "list_all2 lexes_to (map (ser gap (ind @ gap)) xs) (map toks xs)"
    using JArr.IH [OF _ w] by (simp add: list_all2_map1 list_all2_map2 list_all2_same)
  have "lex Idle (wrap 0x5B 0x5D gap ind (map (ser gap (ind @ gap)) xs) @ r)
          = emit (TLBrack # sepc (map toks xs) @ [TRBrack]) (lex Idle r)" if "safe r" for r
    by (rule lex_wrap [OF _ _ _ assms JArr.prems p that])
       (simp_all add: idle_step_def json_ws_def is_digit_def)
  then show ?case by (simp add: lexes_to_def)
next
  case (JObj kvs)
  have w: "list_all json_ws (ind @ gap)" using JObj.prems assms by simp
  let ?colon = "if gap = [] then [0x3A] else [0x3A, 0x20]"
  have c: "lex Idle (?colon @ r) = emit [TColon] (lex Idle r)" for r
    by (simp add: idle_step_def json_ws_def)
  have cs: "safe (?colon @ r)" for r
    by (simp add: safe_def is_digit_def)
  have m: "lexes_to (quote (fst kv) @ ?colon @ ser gap (ind @ gap) (snd kv))
             (TStr (fst kv) # TColon # toks (snd kv))" if "kv \<in> set kvs" for kv
  proof -
    have v: "lexes_to (ser gap (ind @ gap) (snd kv)) (toks (snd kv))"
      using JObj.IH [OF that _ w] by (cases kv) simp
    show ?thesis
      unfolding lexes_to_def
    proof (intro allI impI)
      fix r assume r: "safe r"
      have "lex Idle ((quote (fst kv) @ ?colon @ ser gap (ind @ gap) (snd kv)) @ r)
              = lex Idle (quote (fst kv) @ (?colon @ (ser gap (ind @ gap) (snd kv) @ r)))"
        by simp
      also have "\<dots> = emit [TStr (fst kv)] (lex Idle (?colon @ (ser gap (ind @ gap) (snd kv) @ r)))"
        by (rule lex_quote)
      also have "\<dots> = emit [TStr (fst kv)] (emit [TColon] (lex Idle (ser gap (ind @ gap) (snd kv) @ r)))"
        by (simp only: c)
      also have "\<dots> = emit [TStr (fst kv)] (emit [TColon] (emit (toks (snd kv)) (lex Idle r)))"
        by (simp only: lexes_toD [OF v r])
      finally show "lex Idle ((quote (fst kv) @ ?colon @ ser gap (ind @ gap) (snd kv)) @ r)
              = emit (TStr (fst kv) # TColon # toks (snd kv)) (lex Idle r)"
        by simp
    qed
  qed
  have p: "list_all2 lexes_to
             (map (\<lambda>kv. quote (fst kv) @ ?colon @ ser gap (ind @ gap) (snd kv)) kvs)
             (map (\<lambda>kv. TStr (fst kv) # TColon # toks (snd kv)) kvs)"
    using m by (simp add: list_all2_map1 list_all2_map2 list_all2_same)
  have "lex Idle (wrap 0x7B 0x7D gap ind
            (map (\<lambda>kv. quote (fst kv) @ ?colon @ ser gap (ind @ gap) (snd kv)) kvs) @ r)
          = emit (TLBrace # sepc (map (\<lambda>kv. TStr (fst kv) # TColon # toks (snd kv)) kvs) @ [TRBrace])
              (lex Idle r)" if "safe r" for r
    by (rule lex_wrap [OF _ _ _ assms JObj.prems p that])
       (simp_all add: idle_step_def json_ws_def is_digit_def)
  then show ?case by (simp add: lexes_to_def)
qed

lemma lex_stringify: "lex Idle (JSON_stringify v space) = Some (toks v)"
proof -
  have "lexes_to (ser (replicate (min space 10) 0x20) [] v) (toks v)"
    by (rule lex_ser) (simp_all add: list_all_iff json_ws_def)
  from lexes_toD [OF this, of "[]"] show ?thesis
    by (simp add: JSON_stringify_def safe_def)
qed


lemma parses_backD:
  "parses_back v \<Longrightarrow> m = Value \<or> m = FirstValue \<Longrightarrow>
   prun m st (toks v @ rest)
     = (case push v st of None \<Rightarrow> None | Some (m', st') \<Rightarrow> prun m' st' rest)"
  unfolding parses_back_def by blast

lemma prun_elems:
  "list_all parses_back xs \<Longrightarrow> xs \<noteq> [] \<Longrightarrow> m = Value \<or> m = FirstValue \<Longrightarrow>
   prun m (FArr acc # st) (sepc (map toks xs) @ TRBrack # rest)
     = (case push (JArr (acc @ xs)) st of None \<Rightarrow> None | Some (m', st') \<Rightarrow> prun m' st' rest)"
proof (induction xs arbitrary: acc m rule: induct_list012)
  case 1
  then show ?case by simp
next
  case (2 x)
  then have "parses_back x" by simp
  from parses_backD [OF this 2(3), of "FArr acc # st" "TRBrack # rest"]
  show ?case by simp
next
  case (3 x y ys)
  then have x: "parses_back x" and r: "list_all parses_back (y # ys)" by simp_all
  have "prun m (FArr acc # st) (sepc (map toks (x # y # ys)) @ TRBrack # rest)
          = prun m (FArr acc # st) (toks x @ (TComma # sepc (map toks (y # ys)) @ TRBrack # rest))"
    by simp
  also have "\<dots> = prun AfterValue (FArr (acc @ [x]) # st)
                      (TComma # sepc (map toks (y # ys)) @ TRBrack # rest)"
    using parses_backD [OF x 3(5)] by simp
  also have "\<dots> = prun Value (FArr (acc @ [x]) # st) (sepc (map toks (y # ys)) @ TRBrack # rest)"
    by simp
  also have "\<dots> = (case push (JArr ((acc @ [x]) @ y # ys)) st of
                       None \<Rightarrow> None | Some (m', st') \<Rightarrow> prun m' st' rest)"
    by (rule 3(2) [OF r]) simp_all
  finally show ?case by simp
qed

lemma prun_members:
  "list_all (\<lambda>kv. parses_back (snd kv)) kvs \<Longrightarrow> kvs \<noteq> [] \<Longrightarrow> m = Key \<or> m = FirstKey \<Longrightarrow>
   prun m (FObj acc # st)
      (sepc (map (\<lambda>kv. TStr (fst kv) # TColon # toks (snd kv)) kvs) @ TRBrace # rest)
     = (case push (JObj (acc @ kvs)) st of None \<Rightarrow> None | Some (m', st') \<Rightarrow> prun m' st' rest)"
proof (induction kvs arbitrary: acc m rule: induct_list012)
  case 1
  then show ?case by simp
next
  case (2 kv)
  then have v: "parses_back (snd kv)" by simp
  have "prun m (FObj acc # st) ((TStr (fst kv) # TColon # toks (snd kv)) @ TRBrace # rest)
          = prun Value (FKey acc (fst kv) # st) (toks (snd kv) @ TRBrace # rest)"
    using 2(3) by auto
  also have "\<dots> = prun AfterValue (FObj (acc @ [(fst kv, snd kv)]) # st) (TRBrace # rest)"
    using parses_backD [OF v, of Value] by simp
  finally show ?case by simp
next
  case (3 kv y ys)
  then have v: "parses_back (snd kv)"
    and r: "list_all (\<lambda>kv. parses_back (snd kv)) (y # ys)" by simp_all
  let ?mem = "\<lambda>kv. TStr (fst kv) # TColon # toks (snd kv)"
  have "prun m (FObj acc # st) (sepc (map ?mem (kv # y # ys)) @ TRBrace # rest)
          = prun Value (FKey acc (fst kv) # st)
              (toks (snd kv) @ (TComma # sepc (map ?mem (y # ys)) @ TRBrace # rest))"
    using 3(5) by auto
  also have "\<dots> = prun AfterValue (FObj (acc @ [(fst kv, snd kv)]) # st)
                      (TComma # sepc (map ?mem (y # ys)) @ TRBrace # rest)"
    using parses_backD [OF v, of Value] by simp
  also have "\<dots> = prun Key (FObj (acc @ [kv]) # st) (sepc (map ?mem (y # ys)) @ TRBrace # rest)"
    by simp
  also have "\<dots> = (case push (JObj ((acc @ [kv]) @ y # ys)) st of
                       None \<Rightarrow> None | Some (m', st') \<Rightarrow> prun m' st' rest)"
    by (rule 3(2) [OF r]) simp_all
  finally show ?case by simp
qed

lemma parses_back_all: "parses_back v"
proof (induction v)
  case JNull
  show ?case by (auto simp: parses_back_def)
next
  case (JBool b)
  show ?case by (auto simp: parses_back_def)
next
  case (JNum n)
  show ?case by (auto simp: parses_back_def)
next
  case (JStr s)
  show ?case by (auto simp: parses_back_def)
next
  case (JArr xs)
  then have a: "list_all parses_back xs" by (simp add: list_all_iff)
  show ?case
    unfolding parses_back_def
  proof (intro allI impI)
    fix m st rest
    assume m: "m = Value \<or> m = FirstValue"
    show "prun m st (toks (JArr xs) @ rest)
            = (case push (JArr xs) st of None \<Rightarrow> None | Some (m', st') \<Rightarrow> prun m' st' rest)"
    proof (cases "xs = []")
      case True
      with m show ?thesis by auto
    next
      case False
      have "prun m st (toks (JArr xs) @ rest)
              = prun FirstValue (FArr [] # st) (sepc (map toks xs) @ TRBrack # rest)"
        using m by auto
      also have "\<dots> = (case push (JArr ([] @ xs)) st of
                           None \<Rightarrow> None | Some (m', st') \<Rightarrow> prun m' st' rest)"
        by (rule prun_elems [OF a False]) simp
      finally show ?thesis by simp
    qed
  qed
next
  case (JObj kvs)
  then have a: "list_all (\<lambda>kv. parses_back (snd kv)) kvs"
    by (auto simp: list_all_iff snds.simps)
  show ?case
    unfolding parses_back_def
  proof (intro allI impI)
    fix m st rest
    assume m: "m = Value \<or> m = FirstValue"
    let ?mem = "\<lambda>kv. TStr (fst kv) # TColon # toks (snd kv)"
    show "prun m st (toks (JObj kvs) @ rest)
            = (case push (JObj kvs) st of None \<Rightarrow> None | Some (m', st') \<Rightarrow> prun m' st' rest)"
    proof (cases "kvs = []")
      case True
      with m show ?thesis by auto
    next
      case False
      have "prun m st (toks (JObj kvs) @ rest)
              = prun FirstKey (FObj [] # st) (sepc (map ?mem kvs) @ TRBrace # rest)"
        using m by auto
      also have "\<dots> = (case push (JObj ([] @ kvs)) st of
                           None \<Rightarrow> None | Some (m', st') \<Rightarrow> prun m' st' rest)"
        by (rule prun_members [OF a False]) simp
      finally show ?thesis by simp
    qed
  qed
qed

lemma JSON_roundtrip: "JSON_parse (JSON_stringify v space) = Some v"
  using parses_backD [OF parses_back_all, where m = Value and st = "[]" and rest = "[]" and v = v]
  by (simp add: JSON_parse_def lex_stringify)

section \<open>Properties of the cache\<close>


lemma getItem_removeItem: "getItem (removeItem st k) k = None"
  by (simp add: getItem_def removeItem_def delete_conv')

lemma getItem_removeItem_other: "k' \<noteq> k \<Longrightarrow> getItem (removeItem st k) k' = getItem st k'"
  by (simp add: getItem_def removeItem_def delete_conv')










lemma corrupt_blob: "JSON_parse (js ''{oops'') = None"
  by (simp add: JSON_parse_def js_def idle_step_def json_ws_def is_digit_def)

text \<open>
  C3 as stated fails: a stored string that does not parse makes \<open>getCachedData\<close> return
  \<open>null\<close>, but the entry stays in the store. The \<open>catch\<close> block of \<open>getCachedData\<close>
  only logs and returns \<open>null\<close>.
\<close>

theorem getCachedData_corrupt_counterexample:
  "JSON_parse (js ''{oops'') = None
   \<and> getCachedData 0 (js ''worker-code'') corrupt_store = (Some JNull, corrupt_store)
   \<and> getItem (snd (getCachedData 0 (js ''worker-code'') corrupt_store)) (js ''cache-worker-code'')
       = Some (js ''{oops'')"
proof -
  have k: "js ''cache-'' @ js ''worker-code'' = js ''cache-worker-code''"
    by (simp add: js_def)
  have g: "getItem corrupt_store (js ''cache-worker-code'') = Some (js ''{oops'')"
    by (simp add: corrupt_store_def getItem_def)
  have c: "getCachedData 0 (js ''worker-code'') corrupt_store = (Some JNull, corrupt_store)"
    using g corrupt_blob by (simp add: getCachedData_def k)
  show ?thesis using corrupt_blob c g by simp
qed

text \<open>
  C3, amended. For every key whose stored string fails to deserialize, \<open>getCachedData\<close>
  returns \<open>null\<close> and leaves the store unchanged.
\<close>

theorem getCachedData_corrupt:
  assumes "getItem st (js ''cache-'' @ key) = Some stored" and "JSON_parse stored = None"
  shows "getCachedData now key st = (Some JNull, st)"
  using assms by (simp add: getCachedData_def)

theorem getCachedData_corrupt_witness:
  "getItem corrupt_store (js ''cache-'' @ js ''worker-code'') = Some (js ''{oops'')
   \<and> JSON_parse (js ''{oops'') = None
   \<and> getCachedData 7 (js ''worker-code'') corrupt_store = (Some JNull, corrupt_store)"
proof -
  have g: "getItem corrupt_store (js ''cache-'' @ js ''worker-code'') = Some (js ''{oops'')"
    by (simp add: corrupt_store_def getItem_def js_def)
  from getCachedData_corrupt [OF g corrupt_blob, of 7] g corrupt_blob
  show ?thesis by simp
qed


lemma stats_step_corrupt:
  "getItem st k = Some stored \<Longrightarrow> JSON_parse stored = None \<Longrightarrow>
   stats_step st (n, t) k = (n + length stored, t)"
  by (simp add: stats_step_def)

lemma stats_step_size:
  "stats_step st (n + m, t) k
     = (fst (stats_step st (n, t) k) + m, snd (stats_step st (n, t) k))"
  by (simp add: stats_step_def Let_def split: option.splits)

lemma foldl_stats_size:
  "foldl (stats_step st) (n + m, t) ks
     = (fst (foldl (stats_step st) (n, t) ks) + m, snd (foldl (stats_step st) (n, t) ks))"
proof (induction ks arbitrary: n t)
  case Nil
  show ?case by simp
next
  case (Cons k ks)
  obtain n' t' where s: "stats_step st (n, t) k = (n', t')"
    by (cases "stats_step st (n, t) k")
  then have "stats_step st (n + m, t) k = (n' + m, t')"
    using stats_step_size [of st n m t k] by simp
  with s Cons.IH [of n' t'] show ?case by simp
qed

lemma stats_step_cong:
  "getItem st k = getItem st' k \<Longrightarrow> stats_step st acc k = stats_step st' acc k"
  by (simp add: stats_step_def)

lemma foldl_stats_cong:
  "\<forall>k \<in> set ks. getItem st k = getItem st' k \<Longrightarrow>
   foldl (stats_step st) acc ks = foldl (stats_step st') acc ks"
proof (induction ks arbitrary: acc)
  case Nil
  show ?case by simp
next
  case (Cons k ks)
  have "stats_step st acc k = stats_step st' acc k"
    by (rule stats_step_cong) (use Cons.prems in simp)
  moreover have "foldl (stats_step st) (stats_step st' acc k) ks
                   = foldl (stats_step st') (stats_step st' acc k) ks"
    by (rule Cons.IH) (use Cons.prems in simp)
  ultimately show ?case by simp
qed

lemma keys_removeItem: "Object_keys (removeItem st k) = filter (\<lambda>x. x \<noteq> k) (Object_keys st)"
  by (induction st) (auto simp: Object_keys_def removeItem_def)

lemma getItem_in_keys: "getItem st k = Some v \<Longrightarrow> k \<in> set (Object_keys st)"
  by (auto simp: getItem_def Object_keys_def dest!: map_of_SomeD intro: rev_image_eqI)

text \<open>The statistics loop with and without one corrupt entry.\<close>

lemma stats_loop_corrupt:
  assumes d: "distinct (Object_keys st)"
    and c: "P key"
    and g: "getItem st key = Some stored"
    and p: "JSON_parse stored = None"
  shows "\<exists>n t. foldl (stats_step (removeItem st key)) (0, t0)
                  (filter P (Object_keys (removeItem st key))) = (n, t)
              \<and> foldl (stats_step st) (0, t0) (filter P (Object_keys st))
                  = (n + length stored, t)
              \<and> length (filter P (Object_keys st))
                  = length (filter P (Object_keys (removeItem st key))) + 1"
proof -
  from getItem_in_keys [OF g] obtain ys zs where
    k: "Object_keys st = ys @ key # zs" by (auto dest: split_list)
  with d have n: "key \<notin> set ys" "key \<notin> set zs" by auto
  let ?A = "filter P ys" and ?B = "filter P zs"
  have ck: "filter P (Object_keys st) = ?A @ key # ?B"
    using c by (simp add: k)
  have fy: "filter (\<lambda>x. x \<noteq> key) ys = ys" using n(1) by (induction ys) auto
  have fz: "filter (\<lambda>x. x \<noteq> key) zs = zs" using n(2) by (induction zs) auto
  have "filter (\<lambda>x. x \<noteq> key) (ys @ key # zs) = ys @ zs"
    by (simp add: fy fz)
  then have ck': "filter P (Object_keys (removeItem st key)) = ?A @ ?B"
    by (simp add: keys_removeItem k)
  have same: "\<forall>k' \<in> set (?A @ ?B). getItem st k' = getItem (removeItem st key) k'"
  proof (intro ballI)
    fix k' assume "k' \<in> set (?A @ ?B)"
    then have "k' \<noteq> key" using n by auto
    then show "getItem st k' = getItem (removeItem st key) k'"
      by (simp add: getItem_removeItem_other)
  qed
  obtain n1 t1 where a: "foldl (stats_step st) (0, t0) ?A = (n1, t1)"
    by (cases "foldl (stats_step st) (0, t0) ?A")
  obtain n2 t2 where b: "foldl (stats_step st) (n1, t1) ?B = (n2, t2)"
    by (cases "foldl (stats_step st) (n1, t1) ?B")
  have "foldl (stats_step st) (0, t0) (?A @ key # ?B)
          = foldl (stats_step st) (n1 + length stored, t1) ?B"
    by (simp add: a stats_step_corrupt [OF g p])
  also have "\<dots> = (n2 + length stored, t2)"
    by (simp add: foldl_stats_size b)
  finally have with_k: "foldl (stats_step st) (0, t0) (filter P (Object_keys st))
                          = (n2 + length stored, t2)"
    by (simp add: ck)
  have "foldl (stats_step (removeItem st key)) (0, t0) (?A @ ?B)
          = foldl (stats_step st) (0, t0) (?A @ ?B)"
    by (rule foldl_stats_cong [symmetric]) (rule same)
  also have "\<dots> = (n2, t2)"
    by (simp add: a b)
  finally have without_k:
    "foldl (stats_step (removeItem st key)) (0, t0)
       (filter P (Object_keys (removeItem st key))) = (n2, t2)"
    by (simp add: ck')
  show ?thesis
    using with_k without_k by (simp add: ck ck')
qed

text \<open>
  C4 as stated fails: in a store whose only \<open>cache-\<close> entry is corrupt, \<open>getCacheStats\<close>
  counts one item of five characters, where the empty store has none.
\<close>

theorem getCacheStats_corrupt_counterexample:
  "JSON_parse (js ''{oops'') = None
   \<and> getCacheStats 9000 corrupt_store
       = \<lparr> totalItems = 1, totalSize = 5, oldestItem = Some (JNum 9000) \<rparr>
   \<and> getCacheStats 9000 []
       = \<lparr> totalItems = 0, totalSize = 0, oldestItem = None \<rparr>"
proof -
  have g: "getItem corrupt_store (js ''cache-worker-code'') = Some (js ''{oops'')"
    by (simp add: corrupt_store_def getItem_def)
  have s: "stats_step corrupt_store (0, JNum 9000) (js ''cache-worker-code'')
             = (0 + length (js ''{oops''), JNum 9000)"
    by (rule stats_step_corrupt [OF g corrupt_blob])
  have k: "filter (\<lambda>key. startsWith key (js ''cache-'')) (Object_keys corrupt_store)
             = [js ''cache-worker-code'']"
    by (simp add: corrupt_store_def Object_keys_def startsWith_def js_def)
  have l: "length (js ''{oops'') = 5" by (simp add: js_def)
  have a: "getCacheStats 9000 corrupt_store
             = \<lparr> totalItems = 1, totalSize = 5, oldestItem = Some (JNum 9000) \<rparr>"
    by (simp add: getCacheStats_def Let_def k s l)
  have b: "getCacheStats 9000 [] = \<lparr> totalItems = 0, totalSize = 0, oldestItem = None \<rparr>"
    by (simp add: getCacheStats_def Object_keys_def)
  from corrupt_blob a b show ?thesis by simp
qed

text \<open>
  C4, amended. For every store (with distinct keys) that holds a corrupt \<open>cache-\<close> entry,
  \<open>getCacheStats\<close> still answers, and against the same store without that entry: the
  oldest-entry timestamp is the same (the current time when there is no other \<open>cache-\<close>
  entry), the item count, which is the number of \<open>cache-\<close> keys, is one more, and the
  total size is larger by the length of the corrupt string.
\<close>

theorem getCacheStats_corrupt:
  assumes "distinct (Object_keys st)"
    and "startsWith key (js ''cache-'')"
    and "getItem st key = Some stored"
    and "JSON_parse stored = None"
  shows "totalItems (getCacheStats now st)
           = totalItems (getCacheStats now (removeItem st key)) + 1
         \<and> totalSize (getCacheStats now st)
           = totalSize (getCacheStats now (removeItem st key)) + length stored
         \<and> oldestItem (getCacheStats now st)
           = (case oldestItem (getCacheStats now (removeItem st key)) of
                None \<Rightarrow> Some (JNum now)
              | Some t \<Rightarrow> Some t)"
proof -
  let ?P = "\<lambda>key. startsWith key (js ''cache-'')"
  from stats_loop_corrupt [of st ?P key stored "JNum now", OF assms]
  obtain n t where
    r: "foldl (stats_step (removeItem st key)) (0, JNum now)
          (filter ?P (Object_keys (removeItem st key))) = (n, t)"
    and w: "foldl (stats_step st) (0, JNum now) (filter ?P (Object_keys st))
          = (n + length stored, t)"
    and l: "length (filter ?P (Object_keys st))
          = length (filter ?P (Object_keys (removeItem st key))) + 1"
    by blast
  have e: "filter ?P (Object_keys (removeItem st key)) = [] \<Longrightarrow> t = JNum now"
    using r by simp
  have ne: "filter ?P (Object_keys st) \<noteq> []"
    using l by auto
  have "totalItems (getCacheStats now st)
          = totalItems (getCacheStats now (removeItem st key)) + 1"
    by (simp add: getCacheStats_def Let_def r w l)
  moreover have "totalSize (getCacheStats now st)
          = totalSize (getCacheStats now (removeItem st key)) + length stored"
    by (simp add: getCacheStats_def Let_def r w)
  moreover have "oldestItem (getCacheStats now st)
           = (case oldestItem (getCacheStats now (removeItem st key)) of
                None \<Rightarrow> Some (JNum now)
              | Some t \<Rightarrow> Some t)"
    using e ne by (simp add: getCacheStats_def Let_def r w)
  ultimately show ?thesis by blast
qed

theorem getCacheStats_corrupt_witness:
  "distinct (Object_keys corrupt_store)
   \<and> startsWith (js ''cache-worker-code'') (js ''cache-'')
   \<and> getItem corrupt_store (js ''cache-worker-code'') = Some (js ''{oops'')
   \<and> JSON_parse (js ''{oops'') = None
   \<and> totalItems (getCacheStats 9000 corrupt_store)
       = totalItems (getCacheStats 9000 (removeItem corrupt_store (js ''cache-worker-code''))) + 1
   \<and> totalSize (getCacheStats 9000 corrupt_store)
       = totalSize (getCacheStats 9000 (removeItem corrupt_store (js ''cache-worker-code'')))
           + length (js ''{oops'')"
proof -
  have d: "distinct (Object_keys corrupt_store)"
    by (simp add: corrupt_store_def Object_keys_def)
  have s: "startsWith (js ''cache-worker-code'') (js ''cache-'')"
    by (simp add: startsWith_def js_def)
  have g: "getItem corrupt_store (js ''cache-worker-code'') = Some (js ''{oops'')"
    by (simp add: corrupt_store_def getItem_def)
  from getCacheStats_corrupt [OF d s g corrupt_blob, of 9000] d s g corrupt_blob
  show ?thesis by blast
qed


subsection \<open>The sweep\<close>

lemma clean_step_other: "k' \<noteq> k \<Longrightarrow> getItem (clean_step now st k') k = getItem st k"
  by (simp add: clean_step_def getItem_removeItem_other split: option.splits sum.splits)

lemma foldl_clean_other:
  "k \<notin> set ks \<Longrightarrow> getItem (foldl (clean_step now) st ks) k = getItem st k"
  by (induction ks arbitrary: st) (auto simp: clean_step_other)

lemma clean_step_corrupt:
  "getItem st k = Some stored \<Longrightarrow> stored \<noteq> [] \<Longrightarrow> JSON_parse stored = None \<Longrightarrow>
   clean_step now st k = removeItem st k"
  by (simp add: clean_step_def)

text \<open>
  The periodic sweep is where a corrupt entry leaves the store: after
  \<open>cleanExpiredCache\<close> a \<open>cache-\<close> key whose non-empty string does not parse is gone.
\<close>

lemma cleanExpiredCache_corrupt:
  assumes d: "distinct (Object_keys st)"
    and c: "startsWith key (js ''cache-'')"
    and g: "getItem st key = Some stored"
    and e: "stored \<noteq> []"
    and p: "JSON_parse stored = None"
  shows "getItem (cleanExpiredCache now st) key = None"
proof -
  let ?P = "\<lambda>key. startsWith key (js ''cache-'')"
  from getItem_in_keys [OF g] obtain ys zs where
    k: "Object_keys st = ys @ key # zs" by (auto dest: split_list)
  with d have n: "key \<notin> set (filter ?P ys)" "key \<notin> set (filter ?P zs)" by auto
  let ?st = "foldl (clean_step now) st (filter ?P ys)"
  have "getItem ?st key = Some stored"
    using foldl_clean_other [OF n(1)] g by simp
  then have s: "clean_step now ?st key = removeItem ?st key"
    using e p by (rule clean_step_corrupt)
  have "cleanExpiredCache now st = foldl (clean_step now) (removeItem ?st key) (filter ?P zs)"
    using c by (simp add: cleanExpiredCache_def Let_def k s)
  then show ?thesis
    using foldl_clean_other [OF n(2)] by (simp add: getItem_removeItem)
qed

section \<open>The configuration file round trip\<close>

lemma config_value_fields:
  "get_prop (config_value c) (js ''cloudflareApiToken'') = Some (JStr (cloudflareApiToken c))"
  "get_prop (config_value c) (js ''cloudflareAccountId'') = Some (JStr (cloudflareAccountId c))"
  "get_prop (config_value c) (js ''cloudflareWorkerId'') = Some (JStr (cloudflareWorkerId c))"
  "get_prop (config_value c) (js ''cosSecretId'') = Some (JStr (cosSecretId c))"
  "get_prop (config_value c) (js ''cosSecretKey'') = Some (JStr (cosSecretKey c))"
  "get_prop (config_value c) (js ''cosBucket'') = Some (JStr (cosBucket c))"
  "get_prop (config_value c) (js ''cosRegion'') = Some (JStr (cosRegion c))"
  by (simp_all add: config_value_def js_def)

lemma configFile_value_props:
  "get_prop (configFile_value nowIso c) (js ''version'') = Some (JStr (js ''1.0.0''))"
  "get_prop (configFile_value nowIso c) (js ''timestamp'') = Some (JStr nowIso)"
  "get_prop (configFile_value nowIso c) (js ''config'') = Some (config_value c)"
  by (simp_all add: configFile_value_def js_def)

lemma exported_file_valid:
  assumes e: "nowIso \<noteq> []" and p: "dateParses nowIso"
  shows "validateConfigFile dateParses (configFile_value nowIso c)"
proof -
  let ?data = "configFile_value nowIso c"
  obtain cfg where c: "config_value c = JObj cfg"
    by (simp add: config_value_def)
  have f: "\<forall>f \<in> set requiredFields. \<exists>s. get_prop (JObj cfg) f = Some (JStr s)"
    unfolding c [symmetric] by (simp add: requiredFields_def config_value_fields)
  have n: "js ''1.0.0'' \<noteq> []" by (simp add: js_def)
  have v: "get_prop ?data (js ''version'') = Some (JStr (js ''1.0.0''))"
    by (rule configFile_value_props)
  have t: "get_prop ?data (js ''timestamp'') = Some (JStr nowIso)"
    by (rule configFile_value_props)
  have g: "get_prop ?data (js ''config'') = Some (JObj cfg)"
    using configFile_value_props(3) [of nowIso c] by (simp only: c)
  have "isValid (validateConfigFileDetailed dateParses ?data)
        \<and> errors (validateConfigFileDetailed dateParses ?data) = []"
    using v n t e p g f by (rule validate_accepts)
  then show ?thesis by (simp add: validateConfigFile_def)
qed

text \<open>
  C8. For every configuration record, importing the file that \<open>exportConfigToFile\<close>
  wrote (at a time whose ISO string the date parser reads back) resolves to a configuration
  object equal to the original: it holds the seven fields with the original strings.
\<close>

theorem export_import_roundtrip:
  assumes "nowIso \<noteq> []" and "dateParses nowIso"
  shows "importConfigFromFile dateParses (exportConfigToFile nowIso config)
           = Inr (Some (config_value config))
         \<and> get_prop (config_value config) (js ''cloudflareApiToken'')
             = Some (JStr (cloudflareApiToken config))
         \<and> get_prop (config_value config) (js ''cloudflareAccountId'')
             = Some (JStr (cloudflareAccountId config))
         \<and> get_prop (config_value config) (js ''cloudflareWorkerId'')
             = Some (JStr (cloudflareWorkerId config))
         \<and> get_prop (config_value config) (js ''cosSecretId'') = Some (JStr (cosSecretId config))
         \<and> get_prop (config_value config) (js ''cosSecretKey'')
             = Some (JStr (cosSecretKey config))
         \<and> get_prop (config_value config) (js ''cosBucket'') = Some (JStr (cosBucket config))
         \<and> get_prop (config_value config) (js ''cosRegion'') = Some (JStr (cosRegion config))"
proof -
  have "importConfigFromFile dateParses (exportConfigToFile nowIso config)
          = Inr (Some (config_value config))"
    using exported_file_valid [of nowIso dateParses config] assms
    by (simp add: importConfigFromFile_def exportConfigToFile_def JSON_roundtrip
        configFile_value_props)
  then show ?thesis by (simp only: config_value_fields simp_thms)
qed

theorem export_import_roundtrip_witness:
  "js ''2024-05-01T08:30:00.000Z'' \<noteq> [] \<and> sample_date (js ''2024-05-01T08:30:00.000Z'')
   \<and> importConfigFromFile sample_date
         (exportConfigToFile (js ''2024-05-01T08:30:00.000Z'') sample_config)
       = Inr (Some (config_value sample_config))"
proof -
  have n: "js ''2024-05-01T08:30:00.000Z'' \<noteq> []" by (simp add: js_def)
  have d: "sample_date (js ''2024-05-01T08:30:00.000Z'')" by (simp add: sample_date_def)
  have "importConfigFromFile sample_date
         (exportConfigToFile (js ''2024-05-01T08:30:00.000Z'') sample_config)
       = Inr (Some (config_value sample_config))"
    using export_import_roundtrip
      [of "js ''2024-05-01T08:30:00.000Z''" sample_date sample_config] n d
    by blast
  with n d show ?thesis by blast
qed

end
